theory Spec2Isabelle
  imports Complex_Main "HOL-Library.Signed_Division" "HOL-Library.Log_Nat"
begin

section \<open>The corner-point grid of libecl (ecl\_grid.c)\<close>

text \<open>
  The C \<open>int\<close> values of the source are modelled as mathematical integers: the model
  describes the executions in which no signed overflow occurs, and \<open>c_int_range\<close> says
  of a value that it is one of a 32-bit \<open>int\<close>.  The C \<open>double\<close> values are modelled
  as real numbers; the sums and products of the cell volume are rounded to the nearest
  double (\<open>to_double\<close>).  A call of \<open>util_abort\<close> is the outcome \<open>Abort\<close>; an
  access outside an array, a NULL dereference or a division by zero is the outcome
  \<open>Fault\<close>.
\<close>

subsection \<open>Data model\<close>

datatype failure = Abort | Fault

type_synonym 'a result = "failure + 'a"

record point_type =
  px :: real
  py :: real
  pz :: real

type_synonym grid_ref = nat

record ecl_cell_type =
  active :: bool
  active_index :: int
  center :: point_type
  corner_list :: "point_type list"
  lgr :: "grid_ref option"
  host_cell :: int
  tainted_geometry :: bool

record ecl_grid_type =
  grid_nr :: int
  name :: "string option"
  nx :: int
  ny :: int
  nz :: int
  size_grid :: int
  total_active :: int
  visited :: "bool list option"
  index_map :: "int list option"
  inv_index_map :: "int list option"
  cells :: "ecl_cell_type list"
  parent_name :: "string option"
  children :: "(string option \<times> grid_ref) list"
  parent_grid :: "grid_ref option"
  global_grid :: "grid_ref option"
  LGR_list :: "(grid_ref \<times> bool) list option"
  LGR_hash :: "(string option \<times> grid_ref) list option"

text \<open>Reading and writing a C array at an \<open>int\<close> index.\<close>

definition array_get :: "'a list \<Rightarrow> int \<Rightarrow> 'a result" where
  "array_get xs i = (if 0 \<le> i \<and> i < int (length xs) then Inr (xs ! nat i) else Inl Fault)"

definition array_set :: "'a list \<Rightarrow> int \<Rightarrow> 'a \<Rightarrow> ('a list) result" where
  "array_set xs i v = (if 0 \<le> i \<and> i < int (length xs) then Inr (xs[nat i := v]) else Inl Fault)"

text \<open>The integer division of C truncates towards zero and is undefined for a zero divisor.\<close>

definition c_div :: "int \<Rightarrow> int \<Rightarrow> int result" where
  "c_div a b = (if b = 0 then Inl Fault else Inr (a sdiv b))"

definition c_mod :: "int \<Rightarrow> int \<Rightarrow> int result" where
  "c_mod a b = (if b = 0 then Inl Fault else Inr (a smod b))"

text \<open>The largest value of a 32-bit \<open>int\<close>, and the values of that type.\<close>

definition INT_MAX :: int where
  "INT_MAX = 2147483647"

definition c_int_range :: "int \<Rightarrow> bool" where
  "c_int_range v \<longleftrightarrow> - INT_MAX - 1 \<le> v \<and> v \<le> INT_MAX"

subsection \<open>Double precision\<close>

text \<open>
  Rounding of a real number to the nearest IEEE 754 double, ties to the even mantissa, for
  numbers within the range of the finite doubles: a double is an integer of at most 53
  bits times a power of two that is at least \<open>2 powi double_emin\<close>.
\<close>

definition round_half_even :: "real \<Rightarrow> int" where
  "round_half_even y =
     (let f = \<lfloor>y\<rfloor>; d = y - of_int f
      in if d < 1 / 2 then f else if d > 1 / 2 then f + 1 else if even f then f else f + 1)"

definition double_emin :: int where
  "double_emin = - 1074"

definition double_exponent :: "real \<Rightarrow> int" where
  "double_exponent x =
     max (bitlen \<lfloor>\<bar>x\<bar> * 2 powi (- double_emin)\<rfloor> - 53 + double_emin) double_emin"

definition to_double :: "real \<Rightarrow> real" where
  "to_double x =
     of_int (round_half_even (x / 2 powi double_exponent x)) * 2 powi double_exponent x"

subsection \<open>Index translator\<close>

definition ecl_grid_get_global_index_unchecked :: "ecl_grid_type \<Rightarrow> int \<Rightarrow> int \<Rightarrow> int \<Rightarrow> int" where
  "ecl_grid_get_global_index_unchecked g i j k = i + j * nx g + k * nx g * ny g"

definition ecl_grid_ijk_valid :: "ecl_grid_type \<Rightarrow> int \<Rightarrow> int \<Rightarrow> int \<Rightarrow> bool" where
  "ecl_grid_ijk_valid g i j k =
     (if i \<ge> 0 \<and> i < nx g then
        (if j \<ge> 0 \<and> j < ny g then
           (if k \<ge> 0 \<and> k < nz g then True else False)
         else False)
      else False)"

definition ecl_grid_get_global_index3 :: "ecl_grid_type \<Rightarrow> int \<Rightarrow> int \<Rightarrow> int \<Rightarrow> int result" where
  "ecl_grid_get_global_index3 g i j k =
     (if ecl_grid_ijk_valid g i j k then Inr (ecl_grid_get_global_index_unchecked g i j k)
      else Inl Abort)"

definition ecl_grid_get_ijk1 :: "ecl_grid_type \<Rightarrow> int \<Rightarrow> (int \<times> int \<times> int) result" where
  "ecl_grid_get_ijk1 g global_index =
     (case c_div global_index (nx g * ny g) of
        Inl e \<Rightarrow> Inl e
      | Inr k \<Rightarrow>
          (let gi1 = global_index - k * (nx g * ny g) in
           case c_div gi1 (nx g) of
             Inl e \<Rightarrow> Inl e
           | Inr j \<Rightarrow>
               (let gi2 = gi1 - j * nx g in Inr (gi2, j, k))))"

text \<open>
  A counting loop \<open>for (i = i0; i < n; i++) body\<close> whose body neither changes the
  counter nor leaves the loop other than by a failure.
\<close>

function loop_from :: "int \<Rightarrow> int \<Rightarrow> (int \<Rightarrow> 's \<Rightarrow> 's result) \<Rightarrow> 's \<Rightarrow> 's result" where
  "loop_from i n body s =
     (if i < n then
        (case body i s of Inl e \<Rightarrow> Inl e | Inr s' \<Rightarrow> loop_from (i + 1) n body s')
      else Inr s)"
  by pat_completeness auto
termination
  by (relation "measure (\<lambda>(i, n, body, s). nat (n - i))") auto

declare loop_from.simps [simp del]

subsection \<open>Active index and index maps\<close>

definition set_active_index_body ::
  "ecl_grid_type \<Rightarrow> int \<Rightarrow> int \<Rightarrow> int \<Rightarrow> ecl_cell_type list \<times> int \<Rightarrow> (ecl_cell_type list \<times> int) result" where
  "set_active_index_body g k j i st =
     (case st of (cs, act_index) \<Rightarrow>
        (let global_index = ecl_grid_get_global_index_unchecked g i j k in
         case array_get cs global_index of
           Inl e \<Rightarrow> Inl e
         | Inr cell \<Rightarrow>
             if active cell then
               Inr (cs[nat global_index := cell\<lparr>active_index := act_index\<rparr>], act_index + 1)
             else
               Inr (cs[nat global_index := cell\<lparr>active_index := - 1\<rparr>], act_index)))"

definition ecl_grid_set_active_index :: "ecl_grid_type \<Rightarrow> ecl_grid_type result" where
  "ecl_grid_set_active_index g =
     (case loop_from 0 (nz g) (\<lambda>k.
             loop_from 0 (ny g) (\<lambda>j.
               loop_from 0 (nx g) (\<lambda>i. set_active_index_body g k j i))) (cells g, 0) of
        Inl e \<Rightarrow> Inl e
      | Inr (cs, act_index) \<Rightarrow> Inr (g\<lparr>cells := cs, total_active := act_index\<rparr>))"

text \<open>
  \<open>util_realloc\<close> belongs to libutil, which is not part of the sources at hand.  It is
  taken as the C library's \<open>realloc\<close>: the block has the requested number of elements,
  the old elements are kept, and the new ones hold whatever the memory held (\<open>fill\<close>).
\<close>

definition util_realloc :: "'a list option \<Rightarrow> int \<Rightarrow> (nat \<Rightarrow> 'a) \<Rightarrow> 'a list" where
  "util_realloc old n fill =
     (let xs = (case old of None \<Rightarrow> [] | Some ys \<Rightarrow> ys)
      in map (\<lambda>i. if i < length xs then xs ! i else fill i) [0..<nat n])"

definition realloc_index_map_body ::
  "ecl_grid_type \<Rightarrow> int \<Rightarrow> int list \<times> int list \<Rightarrow> (int list \<times> int list) result" where
  "realloc_index_map_body g index st =
     (case st of (imap, invm) \<Rightarrow>
        (case array_get (cells g) index of
           Inl e \<Rightarrow> Inl e
         | Inr cell \<Rightarrow>
             if active cell then
               (case array_set imap index (active_index cell) of
                  Inl e \<Rightarrow> Inl e
                | Inr imap' \<Rightarrow>
                    (case array_set invm (active_index cell) index of
                       Inl e \<Rightarrow> Inl e
                     | Inr inv' \<Rightarrow> Inr (imap', inv')))
             else
               (case array_set imap index (- 1) of
                  Inl e \<Rightarrow> Inl e
                | Inr imap' \<Rightarrow> Inr (imap', invm))))"

definition ecl_grid_realloc_index_map ::
  "(nat \<Rightarrow> int) \<Rightarrow> (nat \<Rightarrow> int) \<Rightarrow> ecl_grid_type \<Rightarrow> ecl_grid_type result" where
  "ecl_grid_realloc_index_map fill1 fill2 g =
     (let imap0 = util_realloc (index_map g) (size_grid g) fill1;
          inv0 = util_realloc (inv_index_map g) (total_active g) fill2
      in case loop_from 0 (size_grid g) (realloc_index_map_body g) (imap0, inv0) of
           Inl e \<Rightarrow> Inl e
         | Inr (imap, invm) \<Rightarrow> Inr (g\<lparr>index_map := Some imap, inv_index_map := Some invm\<rparr>))"

definition ecl_grid_update_index ::
  "(nat \<Rightarrow> int) \<Rightarrow> (nat \<Rightarrow> int) \<Rightarrow> ecl_grid_type \<Rightarrow> ecl_grid_type result" where
  "ecl_grid_update_index fill1 fill2 g =
     (case ecl_grid_set_active_index g of
        Inl e \<Rightarrow> Inl e
      | Inr g' \<Rightarrow> ecl_grid_realloc_index_map fill1 fill2 g')"

definition ecl_grid_get_active_index1 :: "ecl_grid_type \<Rightarrow> int \<Rightarrow> int result" where
  "ecl_grid_get_active_index1 g global_index =
     (case index_map g of None \<Rightarrow> Inl Fault | Some imap \<Rightarrow> array_get imap global_index)"

definition ecl_grid_get_active_index3 :: "ecl_grid_type \<Rightarrow> int \<Rightarrow> int \<Rightarrow> int \<Rightarrow> int result" where
  "ecl_grid_get_active_index3 g i j k =
     (case ecl_grid_get_global_index3 g i j k of
        Inl e \<Rightarrow> Inl e
      | Inr global_index \<Rightarrow> ecl_grid_get_active_index1 g global_index)"

definition ecl_grid_get_global_index1A :: "ecl_grid_type \<Rightarrow> int \<Rightarrow> int result" where
  "ecl_grid_get_global_index1A g act_index =
     (case inv_index_map g of None \<Rightarrow> Inl Fault | Some invm \<Rightarrow> array_get invm act_index)"

text \<open>
  The cells in the order in which the three nested loops of
  \<open>ecl_grid_set_active_index\<close> visit them: \<open>k\<close> outermost, then \<open>j\<close>, then \<open>i\<close>.
\<close>

definition kji_traversal :: "ecl_grid_type \<Rightarrow> (int \<times> int \<times> int) list" where
  "kji_traversal g =
     concat (map (\<lambda>k. concat (map (\<lambda>j. map (\<lambda>i. (int i, int j, int k)) [0..<nat (nx g)])
                                     [0..<nat (ny g)]))
                 [0..<nat (nz g)])"

definition cell_at :: "ecl_cell_type list \<Rightarrow> ecl_grid_type \<Rightarrow> int \<times> int \<times> int \<Rightarrow> ecl_cell_type" where
  "cell_at cs g ijk = (case ijk of (i, j, k) \<Rightarrow> cs ! nat (ecl_grid_get_global_index_unchecked g i j k))"

text \<open>What \<open>ecl_grid_alloc_empty\<close> establishes about the dimensions and the cell array.\<close>

definition grid_dims_ok :: "ecl_grid_type \<Rightarrow> bool" where
  "grid_dims_ok g \<longleftrightarrow>
     0 \<le> nx g \<and> 0 \<le> ny g \<and> 0 \<le> nz g \<and> size_grid g = nx g * ny g * nz g \<and>
     int (length (cells g)) = size_grid g"

text \<open>
  The number of active cells among the first \<open>m\<close> cells of the array, and the cell
  array in which the first \<open>m\<close> cells carry that number (or \<open>-1\<close>) as active index.
\<close>

definition active_rank :: "ecl_cell_type list \<Rightarrow> nat \<Rightarrow> int" where
  "active_rank cs m = int (length (filter active (take m cs)))"

definition ranked_cells :: "ecl_cell_type list \<Rightarrow> nat \<Rightarrow> ecl_cell_type list" where
  "ranked_cells cs m =
     map (\<lambda>h. if h < m then (cs ! h)\<lparr>active_index := (if active (cs ! h) then active_rank cs h else - 1)\<rparr>
               else cs ! h) [0..<length cs]"

text \<open>The loop invariant of \<open>ecl_grid_realloc_index_map\<close> after \<open>m\<close> iterations.\<close>

definition realloc_inv :: "ecl_cell_type list \<Rightarrow> nat \<Rightarrow> int list \<times> int list \<Rightarrow> bool" where
  "realloc_inv cs m st \<longleftrightarrow>
     (case st of (imap, invm) \<Rightarrow>
        length imap = length cs \<and>
        int (length invm) = active_rank cs (length cs) \<and>
        (\<forall>h<m. imap ! h = (if active (cs ! h) then active_rank cs h else - 1)) \<and>
        (\<forall>h<m. active (cs ! h) \<longrightarrow> invm ! nat (active_rank cs h) = int h) \<and>
        (\<forall>a. int a < active_rank cs m \<longrightarrow>
             (\<exists>h<m. active (cs ! h) \<and> active_rank cs h = int a \<and> invm ! a = int h)))"

subsection \<open>Points and tetrahedra\<close>

text \<open>
  The files point.c and tetrahedron.c are not among the sources at hand.  The functions of
  ecl\_grid.c that call \<open>tetrahedron_volume\<close> and \<open>tetrahedron_contains\<close> take the two
  as parameters \<open>tv\<close> and \<open>tc\<close>; the definitions below give the geometric meaning that
  the specification attaches to them, for use where a concrete value is needed.
\<close>

record tetrahedron_type =
  tp0 :: point_type
  tp1 :: point_type
  tp2 :: point_type
  tp3 :: point_type

definition point_set :: "real \<Rightarrow> real \<Rightarrow> real \<Rightarrow> point_type" where
  "point_set x y z = \<lparr>px = x, py = y, pz = z\<rparr>"

definition tetrahedron_set_shared ::
  "point_type \<Rightarrow> point_type \<Rightarrow> point_type \<Rightarrow> point_type \<Rightarrow> tetrahedron_type" where
  "tetrahedron_set_shared q0 q1 q2 q3 = \<lparr>tp0 = q0, tp1 = q1, tp2 = q2, tp3 = q3\<rparr>"

text \<open>The determinant of the three edge vectors \<open>a - o\<close>, \<open>b - o\<close>, \<open>c - o\<close>.\<close>

definition edge_det :: "point_type \<Rightarrow> point_type \<Rightarrow> point_type \<Rightarrow> point_type \<Rightarrow> real" where
  "edge_det o' a b c =
     (let a1 = px a - px o'; a2 = py a - py o'; a3 = pz a - pz o';
          b1 = px b - px o'; b2 = py b - py o'; b3 = pz b - pz o';
          c1 = px c - px o'; c2 = py c - py o'; c3 = pz c - pz o'
      in a1 * (b2 * c3 - b3 * c2) - a2 * (b1 * c3 - b3 * c1) + a3 * (b1 * c2 - b2 * c1))"

text \<open>
  Modelled from the spec: \<open>tetrahedron_volume\<close> of tetrahedron.c is missing; the
  specification speaks of the volume of each tetrahedron of the decomposition, with a zero
  contribution for a degenerate one, which is the geometric volume.
\<close>

definition tetrahedron_volume :: "tetrahedron_type \<Rightarrow> real" where
  "tetrahedron_volume tet = \<bar>edge_det (tp0 tet) (tp1 tet) (tp2 tet) (tp3 tet)\<bar> / 6"

text \<open>
  Modelled from the spec: \<open>tetrahedron_volume\<close> of tetrahedron.c is missing; as a C
  function it returns a \<open>double\<close>, taken here as the double nearest to the geometric
  volume.
\<close>

definition tetrahedron_volume_double :: "tetrahedron_type \<Rightarrow> real" where
  "tetrahedron_volume_double tet = to_double (tetrahedron_volume tet)"

text \<open>
  Modelled from the spec: \<open>tetrahedron_contains\<close> of tetrahedron.c is missing; the
  specification speaks of point membership in a tetrahedron, taken here as membership in
  the closed solid, where a tetrahedron without volume contains nothing.
\<close>

definition tetrahedron_contains :: "tetrahedron_type \<Rightarrow> point_type \<Rightarrow> bool" where
  "tetrahedron_contains tet p =
     (let d = edge_det (tp0 tet) (tp1 tet) (tp2 tet) (tp3 tet);
          d1 = edge_det (tp0 tet) p (tp2 tet) (tp3 tet);
          d2 = edge_det (tp0 tet) (tp1 tet) p (tp3 tet);
          d3 = edge_det (tp0 tet) (tp1 tet) (tp2 tet) p
      in d \<noteq> 0 \<and> 0 \<le> d1 / d \<and> 0 \<le> d2 / d \<and> 0 \<le> d3 / d \<and> d1 / d + d2 / d + d3 / d \<le> 1)"

subsection \<open>Cells\<close>

definition tetrahedron_permutations :: "nat list list list" where
  "tetrahedron_permutations =
     [[[0, 2, 6], [0, 4, 6], [0, 4, 5], [0, 1, 5], [1, 3, 7], [1, 5, 7],
       [2, 3, 7], [2, 6, 7], [0, 1, 2], [1, 2, 3], [4, 5, 6], [5, 6, 7]],
      [[0, 2, 4], [2, 4, 6], [0, 4, 1], [4, 5, 1], [1, 3, 5], [3, 5, 7],
       [2, 3, 6], [3, 6, 7], [0, 1, 3], [0, 2, 3], [4, 5, 7], [4, 6, 7]]]"

definition max2 :: "real \<Rightarrow> real \<Rightarrow> real" where
  "max2 x1 x2 = (if x1 > x2 then x1 else x2)"

definition min2 :: "real \<Rightarrow> real \<Rightarrow> real" where
  "min2 x1 x2 = (if x1 < x2 then x1 else x2)"

definition min4 :: "real \<Rightarrow> real \<Rightarrow> real \<Rightarrow> real \<Rightarrow> real" where
  "min4 x1 x2 x3 x4 = min2 (min2 x1 x2) (min2 x3 x4)"

definition max4 :: "real \<Rightarrow> real \<Rightarrow> real \<Rightarrow> real \<Rightarrow> real" where
  "max4 x1 x2 x3 x4 = max2 (max2 x1 x2) (max2 x3 x4)"

definition max8 :: "real \<Rightarrow> real \<Rightarrow> real \<Rightarrow> real \<Rightarrow> real \<Rightarrow> real \<Rightarrow> real \<Rightarrow> real \<Rightarrow> real" where
  "max8 x1 x2 x3 x4 x5 x6 x7 x8 = max2 (max4 x1 x2 x3 x4) (max4 x5 x6 x7 x8)"

definition min8 :: "real \<Rightarrow> real \<Rightarrow> real \<Rightarrow> real \<Rightarrow> real \<Rightarrow> real \<Rightarrow> real \<Rightarrow> real \<Rightarrow> real" where
  "min8 x1 x2 x3 x4 x5 x6 x7 x8 = min2 (min4 x1 x2 x3 x4) (min4 x5 x6 x7 x8)"

text \<open>\<open>cell->corner_list[c]\<close>; the array of a cell has eight entries.\<close>

definition corner :: "ecl_cell_type \<Rightarrow> nat \<Rightarrow> point_type" where
  "corner cell c = corner_list cell ! c"

definition ecl_cell_min_z :: "ecl_cell_type \<Rightarrow> real" where
  "ecl_cell_min_z cell =
     min4 (pz (corner cell 0)) (pz (corner cell 1)) (pz (corner cell 2)) (pz (corner cell 3))"

definition ecl_cell_max_z :: "ecl_cell_type \<Rightarrow> real" where
  "ecl_cell_max_z cell =
     max4 (pz (corner cell 4)) (pz (corner cell 5)) (pz (corner cell 6)) (pz (corner cell 7))"

definition ecl_cell_min_x :: "ecl_cell_type \<Rightarrow> real" where
  "ecl_cell_min_x cell =
     min8 (px (corner cell 0)) (px (corner cell 1)) (px (corner cell 2)) (px (corner cell 3))
          (px (corner cell 4)) (px (corner cell 5)) (px (corner cell 6)) (px (corner cell 7))"

definition ecl_cell_max_x :: "ecl_cell_type \<Rightarrow> real" where
  "ecl_cell_max_x cell =
     max8 (px (corner cell 0)) (px (corner cell 1)) (px (corner cell 2)) (px (corner cell 3))
          (px (corner cell 4)) (px (corner cell 5)) (px (corner cell 6)) (px (corner cell 7))"

definition ecl_cell_min_y :: "ecl_cell_type \<Rightarrow> real" where
  "ecl_cell_min_y cell =
     min8 (py (corner cell 0)) (py (corner cell 1)) (py (corner cell 2)) (py (corner cell 3))
          (py (corner cell 4)) (py (corner cell 5)) (py (corner cell 6)) (py (corner cell 7))"

definition ecl_cell_max_y :: "ecl_cell_type \<Rightarrow> real" where
  "ecl_cell_max_y cell =
     max8 (py (corner cell 0)) (py (corner cell 1)) (py (corner cell 2)) (py (corner cell 3))
          (py (corner cell 4)) (py (corner cell 5)) (py (corner cell 6)) (py (corner cell 7))"

text \<open>The loop \<open>for (c = 0; c < 8; c++)\<close> of \<open>ecl_cell_taint_cell\<close>, from \<open>c\<close> on.\<close>

function taint_loop :: "nat \<Rightarrow> ecl_cell_type \<Rightarrow> ecl_cell_type" where
  "taint_loop c cell =
     (if c < 8 then
        taint_loop (c + 1)
          (if px (corner cell c) = 0 \<and> py (corner cell c) = 0
           then cell\<lparr>tainted_geometry := True\<rparr> else cell)
      else cell)"
  by pat_completeness auto
termination
  by (relation "measure (\<lambda>(c, cell). 8 - c)") auto

declare taint_loop.simps [simp del]

definition ecl_cell_taint_cell :: "ecl_cell_type \<Rightarrow> ecl_cell_type" where
  "ecl_cell_taint_cell cell = taint_loop 0 cell"

text \<open>
  \<open>point_alloc_empty\<close> (point.c) is missing and \<open>active_index\<close> is not initialised:
  the point \<open>empty_point\<close> and the value \<open>junk\<close> stand for what they hold.
\<close>

definition ecl_cell_alloc :: "point_type \<Rightarrow> int \<Rightarrow> ecl_cell_type" where
  "ecl_cell_alloc empty_point junk =
     \<lparr>active = False, active_index = junk, center = empty_point,
      corner_list = replicate 8 empty_point, lgr = None, host_cell = - 1,
      tainted_geometry = False\<rparr>"

definition ecl_cell_install_lgr :: "ecl_cell_type \<Rightarrow> grid_ref \<Rightarrow> ecl_cell_type" where
  "ecl_cell_install_lgr cell lgr_grid = cell\<lparr>lgr := Some lgr_grid\<rparr>"

definition ecl_cell_init_tetrahedron :: "ecl_cell_type \<Rightarrow> nat \<Rightarrow> nat \<Rightarrow> tetrahedron_type" where
  "ecl_cell_init_tetrahedron cell method_nr tetrahedron_nr =
     (let point0 = tetrahedron_permutations ! method_nr ! tetrahedron_nr ! 0;
          point1 = tetrahedron_permutations ! method_nr ! tetrahedron_nr ! 1;
          point2 = tetrahedron_permutations ! method_nr ! tetrahedron_nr ! 2
      in tetrahedron_set_shared (center cell) (corner cell point0) (corner cell point1)
           (corner cell point2))"

text \<open>
  The loop of \<open>ecl_cell_get_volume\<close>, from tetrahedron \<open>itet\<close> on: two additions
  to the \<open>double\<close> variable \<open>volume\<close> in every round.
\<close>

function volume_loop ::
  "(tetrahedron_type \<Rightarrow> real) \<Rightarrow> ecl_cell_type \<Rightarrow> nat \<Rightarrow> real \<Rightarrow> real" where
  "volume_loop tv cell itet volume =
     (if itet < 12 then
        volume_loop tv cell (itet + 1)
          (to_double
             (to_double (volume + tv (ecl_cell_init_tetrahedron cell 0 itet))
                + tv (ecl_cell_init_tetrahedron cell 1 itet)))
      else volume)"
  by pat_completeness auto
termination
  by (relation "measure (\<lambda>(tv, cell, itet, volume). 12 - itet)") auto

declare volume_loop.simps [simp del]

definition ecl_cell_get_volume :: "(tetrahedron_type \<Rightarrow> real) \<Rightarrow> ecl_cell_type \<Rightarrow> real" where
  "ecl_cell_get_volume tv cell = to_double (volume_loop tv cell 0 0 * 0.5)"

definition triangle_area :: "real \<Rightarrow> real \<Rightarrow> real \<Rightarrow> real \<Rightarrow> real \<Rightarrow> real \<Rightarrow> real" where
  "triangle_area x1 y1 x2 y2 x3 y3 =
     \<bar>x1 * y2 + x2 * y3 + x3 * y1 - x1 * y3 - x3 * y2 - x2 * y1\<bar> * 0.5"

definition triangle_contains ::
  "point_type \<Rightarrow> point_type \<Rightarrow> point_type \<Rightarrow> real \<Rightarrow> real \<Rightarrow> bool" where
  "triangle_contains q0 q1 q2 x y =
     (let epsilon = 1 / 10 ^ 10;
          VT = triangle_area (px q0) (py q0) (px q1) (py q1) (px q2) (py q2)
      in if VT < epsilon then False
         else
           (let V1 = triangle_area (px q0) (py q0) (px q1) (py q1) x y;
                V2 = triangle_area (px q0) (py q0) x y (px q2) (py q2);
                V3 = triangle_area x y (px q1) (py q1) (px q2) (py q2)
            in if \<bar>VT - (V1 + V2 + V3)\<bar> < epsilon then True else False))"

definition ecl_cell_layer_contains_xy :: "ecl_cell_type \<Rightarrow> bool \<Rightarrow> real \<Rightarrow> real \<Rightarrow> bool" where
  "ecl_cell_layer_contains_xy cell lower_layer x y =
     (if tainted_geometry cell then False
      else
        (let corner_offset = (if lower_layer then 0 else 4);
             q0 = corner cell (corner_offset + 0);
             q1 = corner cell (corner_offset + 1);
             q2 = corner cell (corner_offset + 2);
             q3 = corner cell (corner_offset + 3)
         in if triangle_contains q0 q1 q2 x y then True
            else triangle_contains q1 q2 q3 x y))"

text \<open>
  The \<open>while (true)\<close> loop of \<open>ecl_cell_contains_point\<close>, from tetrahedron
  \<open>tetrahedron_nr\<close> on.  The table has twelve rows; the loop is entered at row \<open>0\<close>.
\<close>

function contains_loop ::
  "(tetrahedron_type \<Rightarrow> point_type \<Rightarrow> bool) \<Rightarrow> ecl_cell_type \<Rightarrow> point_type \<Rightarrow> nat \<Rightarrow> bool result" where
  "contains_loop tc cell p tetrahedron_nr =
     (if tetrahedron_nr \<ge> 12 then Inl Fault
      else if tc (ecl_cell_init_tetrahedron cell 0 tetrahedron_nr) p then Inr True
      else if tetrahedron_nr + 1 = 12 then Inr False
      else contains_loop tc cell p (tetrahedron_nr + 1))"
  by pat_completeness auto
termination
  by (relation "measure (\<lambda>(tc, cell, p, n). 12 - n)") auto

declare contains_loop.simps [simp del]

definition ecl_cell_contains_point ::
  "(tetrahedron_type \<Rightarrow> real) \<Rightarrow> (tetrahedron_type \<Rightarrow> point_type \<Rightarrow> bool) \<Rightarrow>
   ecl_cell_type \<Rightarrow> point_type \<Rightarrow> bool result" where
  "ecl_cell_contains_point tv tc cell p =
     (if tainted_geometry cell then Inr False
      else if pz p < ecl_cell_min_z cell then Inr False
      else if pz p > ecl_cell_max_z cell then Inr False
      else if px p < ecl_cell_min_x cell then Inr False
      else if px p > ecl_cell_max_x cell then Inr False
      else if py p < ecl_cell_min_y cell then Inr False
      else if py p > ecl_cell_max_y cell then Inr False
      else if ecl_cell_get_volume tv cell > 0 then contains_loop tc cell p 0
      else Inl Abort)"

subsection \<open>Grids\<close>

definition taint_cells_body :: "int \<Rightarrow> ecl_cell_type list \<Rightarrow> (ecl_cell_type list) result" where
  "taint_cells_body index cs =
     (case array_get cs index of
        Inl e \<Rightarrow> Inl e
      | Inr cell \<Rightarrow> array_set cs index (ecl_cell_taint_cell cell))"

definition ecl_grid_taint_cells :: "ecl_grid_type \<Rightarrow> ecl_grid_type result" where
  "ecl_grid_taint_cells g =
     (case loop_from 0 (size_grid g) taint_cells_body (cells g) of
        Inl e \<Rightarrow> Inl e
      | Inr cs \<Rightarrow> Inr (g\<lparr>cells := cs\<rparr>))"

text \<open>
  \<open>ecl_grid_alloc_empty\<close>.  The address of the new grid is \<open>self\<close>; \<open>total_active\<close> is
  not initialised (\<open>junk_total\<close>).  The fields for the axis transform and for blocking
  play no role in what follows and are left out of the record.
\<close>

definition ecl_grid_alloc_empty ::
  "grid_ref \<Rightarrow> point_type \<Rightarrow> int \<Rightarrow> int \<Rightarrow> grid_ref option \<Rightarrow> int \<Rightarrow> int \<Rightarrow> int \<Rightarrow> int \<Rightarrow> ecl_grid_type" where
  "ecl_grid_alloc_empty self empty_point junk junk_total global_grid' nx' ny' nz' grid_nr' =
     \<lparr>grid_nr = grid_nr', name = None, nx = nx', ny = ny', nz = nz',
      size_grid = nx' * ny' * nz', total_active = junk_total,
      visited = None, index_map = None, inv_index_map = None,
      cells = replicate (nat (nx' * ny' * nz')) (ecl_cell_alloc empty_point junk),
      parent_name = None, children = [], parent_grid = None, global_grid = global_grid',
      LGR_list = (if grid_nr' = 0 then Some [(self, False)] else None),
      LGR_hash = (if grid_nr' = 0 then Some [] else None)\<rparr>"

subsection \<open>The LGR hierarchy\<close>

text \<open>
  Grids refer to each other by address.  The heap is the list of the grids allocated so
  far, and the address of a grid is its position in the list.  An entry of \<open>LGR_list\<close> is
  the address of a grid and whether the vector owns it (\<open>vector_append_owned_ref\<close>) or
  not (\<open>vector_append_ref\<close>).  A hash table is the list of its keys and references.
\<close>

type_synonym heap = "ecl_grid_type list"

definition heap_get :: "heap \<Rightarrow> grid_ref \<Rightarrow> ecl_grid_type result" where
  "heap_get h r = (if r < length h then Inr (h ! r) else Inl Fault)"


definition hash_insert_ref :: "('k \<times> grid_ref) list \<Rightarrow> 'k \<Rightarrow> grid_ref \<Rightarrow> ('k \<times> grid_ref) list" where
  "hash_insert_ref tab key r = (key, r) # filter (\<lambda>e. fst e \<noteq> key) tab"


text \<open>One iteration of the loop of \<open>ecl_grid_install_lgr_EGRID\<close>.\<close>

definition install_lgr_EGRID_body ::
  "grid_ref \<Rightarrow> grid_ref \<Rightarrow> int list \<Rightarrow> int \<Rightarrow> heap \<Rightarrow> heap result" where
  "install_lgr_EGRID_body host_grid lgr_grid hostnum global_lgr_index h =
     (case heap_get h lgr_grid of
        Inl e \<Rightarrow> Inl e
      | Inr lg \<Rightarrow>
          (case array_get (cells lg) global_lgr_index of
             Inl e \<Rightarrow> Inl e
           | Inr lgr_cell \<Rightarrow>
               if active lgr_cell then
                 (case array_get hostnum global_lgr_index of
                    Inl e \<Rightarrow> Inl e
                  | Inr hn \<Rightarrow>
                      (case heap_get h host_grid of
                         Inl e \<Rightarrow> Inl e
                       | Inr hg \<Rightarrow>
                           (case array_get (cells hg) hn of
                              Inl e \<Rightarrow> Inl e
                            | Inr host_cell' \<Rightarrow>
                                (let h1 = h[host_grid := hg\<lparr>cells :=
                                            (cells hg)[nat hn := ecl_cell_install_lgr host_cell' lgr_grid]\<rparr>];
                                     lg1 = h1 ! lgr_grid;
                                     lgr_cell1 = cells lg1 ! nat global_lgr_index
                                 in Inr (h1[lgr_grid := lg1\<lparr>cells :=
                                            (cells lg1)[nat global_lgr_index :=
                                               lgr_cell1\<lparr>host_cell := hn - 1\<rparr>]\<rparr>])))))
               else Inr h))"

definition ecl_grid_install_lgr_EGRID ::
  "heap \<Rightarrow> grid_ref \<Rightarrow> grid_ref \<Rightarrow> int list \<Rightarrow> heap result" where
  "ecl_grid_install_lgr_EGRID h host_grid lgr_grid hostnum =
     (case heap_get h lgr_grid of
        Inl e \<Rightarrow> Inl e
      | Inr lg0 \<Rightarrow>
          (case loop_from 0 (size_grid lg0) (install_lgr_EGRID_body host_grid lgr_grid hostnum) h of
             Inl e \<Rightarrow> Inl e
           | Inr h1 \<Rightarrow>
               (case heap_get h1 host_grid of
                  Inl e \<Rightarrow> Inl e
                | Inr hg \<Rightarrow>
                    (let h2 = h1[host_grid :=
                                 hg\<lparr>children := hash_insert_ref (children hg) (name (h1 ! lgr_grid)) lgr_grid\<rparr>]
                     in Inr (h2[lgr_grid := (h2 ! lgr_grid)\<lparr>parent_grid := Some host_grid\<rparr>])))))"

text \<open>The sibling for GRID files, which finds the host cell through \<open>host_cell\<close>.\<close>

definition install_lgr_GRID_body :: "grid_ref \<Rightarrow> grid_ref \<Rightarrow> int \<Rightarrow> heap \<Rightarrow> heap result" where
  "install_lgr_GRID_body host_grid lgr_grid global_lgr_index h =
     (case heap_get h lgr_grid of
        Inl e \<Rightarrow> Inl e
      | Inr lg \<Rightarrow>
          (case array_get (cells lg) global_lgr_index of
             Inl e \<Rightarrow> Inl e
           | Inr lgr_cell \<Rightarrow>
               if active lgr_cell then
                 (case heap_get h host_grid of
                    Inl e \<Rightarrow> Inl e
                  | Inr hg \<Rightarrow>
                      (case array_get (cells hg) (host_cell lgr_cell) of
                         Inl e \<Rightarrow> Inl e
                       | Inr host_cell' \<Rightarrow>
                           Inr (h[host_grid := hg\<lparr>cells :=
                                  (cells hg)[nat (host_cell lgr_cell) :=
                                     ecl_cell_install_lgr host_cell' lgr_grid]\<rparr>])))
               else Inr h))"

definition ecl_grid_install_lgr_GRID :: "heap \<Rightarrow> grid_ref \<Rightarrow> grid_ref \<Rightarrow> heap result" where
  "ecl_grid_install_lgr_GRID h host_grid lgr_grid =
     (case heap_get h lgr_grid of
        Inl e \<Rightarrow> Inl e
      | Inr lg0 \<Rightarrow> loop_from 0 (size_grid lg0) (install_lgr_GRID_body host_grid lgr_grid) h)"


subsection \<open>Point queries\<close>

definition ecl_grid_cell_contains_xyz1 ::
  "(tetrahedron_type \<Rightarrow> real) \<Rightarrow> (tetrahedron_type \<Rightarrow> point_type \<Rightarrow> bool) \<Rightarrow>
   ecl_grid_type \<Rightarrow> int \<Rightarrow> real \<Rightarrow> real \<Rightarrow> real \<Rightarrow> bool result" where
  "ecl_grid_cell_contains_xyz1 tv tc g global_index x y z =
     (let p = point_set x y z in
      case array_get (cells g) global_index of
        Inl e \<Rightarrow> Inl e
      | Inr cell \<Rightarrow> ecl_cell_contains_point tv tc cell p)"

definition ecl_grid_clear_visited :: "ecl_grid_type \<Rightarrow> ecl_grid_type" where
  "ecl_grid_clear_visited g = g\<lparr>visited := Some (replicate (nat (size_grid g)) False)\<rparr>"

definition util_int_max :: "int \<Rightarrow> int \<Rightarrow> int" where
  "util_int_max a b = (if a > b then a else b)"

definition util_int_min :: "int \<Rightarrow> int \<Rightarrow> int" where
  "util_int_min a b = (if a < b then a else b)"

text \<open>
  The three nested loops of \<open>ecl_grid_box_contains_xyz\<close>.  Each returns the cell found,
  if any, and the array of visited marks.
\<close>

function box_loop_i ::
  "(tetrahedron_type \<Rightarrow> real) \<Rightarrow> (tetrahedron_type \<Rightarrow> point_type \<Rightarrow> bool) \<Rightarrow>
   ecl_grid_type \<Rightarrow> point_type \<Rightarrow> int \<Rightarrow> int \<Rightarrow> int \<Rightarrow> int \<Rightarrow> bool list \<Rightarrow>
   (int option \<times> bool list) result" where
  "box_loop_i tv tc g p k j i i2 vis =
     (if i < i2 then
        (case ecl_grid_get_global_index3 g i j k of
           Inl e \<Rightarrow> Inl e
         | Inr global_index \<Rightarrow>
             (case array_get vis global_index of
                Inl e \<Rightarrow> Inl e
              | Inr seen \<Rightarrow>
                  if \<not> seen then
                    (let vis' = vis[nat global_index := True] in
                     case array_get (cells g) global_index of
                       Inl e \<Rightarrow> Inl e
                     | Inr cell \<Rightarrow>
                         (case ecl_cell_contains_point tv tc cell p of
                            Inl e \<Rightarrow> Inl e
                          | Inr found \<Rightarrow>
                              if found then Inr (Some global_index, vis')
                              else box_loop_i tv tc g p k j (i + 1) i2 vis'))
                  else box_loop_i tv tc g p k j (i + 1) i2 vis))
      else Inr (None, vis))"
  by pat_completeness auto
termination
  by (relation "measure (\<lambda>(tv, tc, g, p, k, j, i, i2, vis). nat (i2 - i))") auto

declare box_loop_i.simps [simp del]

function box_loop_j ::
  "(tetrahedron_type \<Rightarrow> real) \<Rightarrow> (tetrahedron_type \<Rightarrow> point_type \<Rightarrow> bool) \<Rightarrow>
   ecl_grid_type \<Rightarrow> point_type \<Rightarrow> int \<Rightarrow> int \<Rightarrow> int \<Rightarrow> int \<Rightarrow> int \<Rightarrow> bool list \<Rightarrow>
   (int option \<times> bool list) result" where
  "box_loop_j tv tc g p i1 i2 k j j2 vis =
     (if j < j2 then
        (case box_loop_i tv tc g p k j i1 i2 vis of
           Inl e \<Rightarrow> Inl e
         | Inr (Some global_index, vis') \<Rightarrow> Inr (Some global_index, vis')
         | Inr (None, vis') \<Rightarrow> box_loop_j tv tc g p i1 i2 k (j + 1) j2 vis')
      else Inr (None, vis))"
  by pat_completeness auto
termination
  by (relation "measure (\<lambda>(tv, tc, g, p, i1, i2, k, j, j2, vis). nat (j2 - j))") auto

declare box_loop_j.simps [simp del]

function box_loop_k ::
  "(tetrahedron_type \<Rightarrow> real) \<Rightarrow> (tetrahedron_type \<Rightarrow> point_type \<Rightarrow> bool) \<Rightarrow>
   ecl_grid_type \<Rightarrow> point_type \<Rightarrow> int \<Rightarrow> int \<Rightarrow> int \<Rightarrow> int \<Rightarrow> int \<Rightarrow> int \<Rightarrow> bool list \<Rightarrow>
   (int option \<times> bool list) result" where
  "box_loop_k tv tc g p i1 i2 j1 j2 k k2 vis =
     (if k < k2 then
        (case box_loop_j tv tc g p i1 i2 k j1 j2 vis of
           Inl e \<Rightarrow> Inl e
         | Inr (Some global_index, vis') \<Rightarrow> Inr (Some global_index, vis')
         | Inr (None, vis') \<Rightarrow> box_loop_k tv tc g p i1 i2 j1 j2 (k + 1) k2 vis')
      else Inr (None, vis))"
  by pat_completeness auto
termination
  by (relation "measure (\<lambda>(tv, tc, g, p, i1, i2, j1, j2, k, k2, vis). nat (k2 - k))") auto

declare box_loop_k.simps [simp del]

text \<open>Box coordinates are not inclusive: the box is \<open>[i1, i2) \<times> [j1, j2) \<times> [k1, k2)\<close>.\<close>

definition ecl_grid_box_contains_xyz ::
  "(tetrahedron_type \<Rightarrow> real) \<Rightarrow> (tetrahedron_type \<Rightarrow> point_type \<Rightarrow> bool) \<Rightarrow>
   ecl_grid_type \<Rightarrow> int \<Rightarrow> int \<Rightarrow> int \<Rightarrow> int \<Rightarrow> int \<Rightarrow> int \<Rightarrow> point_type \<Rightarrow>
   (int \<times> ecl_grid_type) result" where
  "ecl_grid_box_contains_xyz tv tc g i1 i2 j1 j2 k1 k2 p =
     (case visited g of
        None \<Rightarrow> Inl Fault
      | Some vis \<Rightarrow>
          (case box_loop_k tv tc g p i1 i2 j1 j2 k1 k2 vis of
             Inl e \<Rightarrow> Inl e
           | Inr (Some global_index, vis') \<Rightarrow> Inr (global_index, g\<lparr>visited := Some vis'\<rparr>)
           | Inr (None, vis') \<Rightarrow> Inr (- 1, g\<lparr>visited := Some vis'\<rparr>)))"

text \<open>
  The final \<open>while (true)\<close> loop of \<open>ecl_grid_get_global_index_from_xyz\<close>, from
  \<open>index\<close> on.  The loop is entered with \<open>index = 0\<close>; with a grid of no cells the
  remainder is a division by zero, and a grid of a negative size cannot be allocated.
\<close>

function linear_scan ::
  "(tetrahedron_type \<Rightarrow> real) \<Rightarrow> (tetrahedron_type \<Rightarrow> point_type \<Rightarrow> bool) \<Rightarrow>
   ecl_grid_type \<Rightarrow> point_type \<Rightarrow> int \<Rightarrow> int \<Rightarrow> int result" where
  "linear_scan tv tc g p start_index index =
     (if size_grid g \<le> index then Inl Fault
      else
        (case c_mod (index + start_index) (size_grid g) of
           Inl e \<Rightarrow> Inl e
         | Inr current_index \<Rightarrow>
             (case array_get (cells g) current_index of
                Inl e \<Rightarrow> Inl e
              | Inr cell \<Rightarrow>
                  (case ecl_cell_contains_point tv tc cell p of
                     Inl e \<Rightarrow> Inl e
                   | Inr cell_contains \<Rightarrow>
                       if cell_contains then Inr current_index
                       else if index + 1 = size_grid g then Inr (- 1)
                       else linear_scan tv tc g p start_index (index + 1)))))"
  by pat_completeness auto
termination
  by (relation "measure (\<lambda>(tv, tc, g, p, start_index, index). nat (size_grid g - index))") auto

declare linear_scan.simps [simp del]

definition ecl_grid_get_global_index_from_xyz ::
  "(tetrahedron_type \<Rightarrow> real) \<Rightarrow> (tetrahedron_type \<Rightarrow> point_type \<Rightarrow> bool) \<Rightarrow>
   ecl_grid_type \<Rightarrow> real \<Rightarrow> real \<Rightarrow> real \<Rightarrow> int \<Rightarrow> (int \<times> ecl_grid_type) result" where
  "ecl_grid_get_global_index_from_xyz tv tc g0 x y z start_index =
     (let p = point_set x y z;
          g = ecl_grid_clear_visited g0;
          full_scan = (\<lambda>g'. case linear_scan tv tc g' p start_index 0 of
                               Inl e \<Rightarrow> Inl e
                             | Inr global_index \<Rightarrow> Inr (global_index, g'))
      in if start_index \<ge> 0 then
           (case array_get (cells g) start_index of
              Inl e \<Rightarrow> Inl e
            | Inr cell \<Rightarrow>
                (case ecl_cell_contains_point tv tc cell p of
                   Inl e \<Rightarrow> Inl e
                 | Inr found \<Rightarrow>
                     if found then Inr (start_index, g)
                     else
                       (case ecl_grid_get_ijk1 g start_index of
                          Inl e \<Rightarrow> Inl e
                        | Inr (i, j, k) \<Rightarrow>
                            (let i1 = util_int_max 0 (i - 1);
                                 j1 = util_int_max 0 (j - 1);
                                 k1 = util_int_max 0 (k - 1);
                                 i2 = util_int_min (nx g) (i + 1);
                                 j2 = util_int_min (ny g) (j + 1);
                                 k2 = util_int_min (nz g) (k + 1)
                             in case ecl_grid_box_contains_xyz tv tc g i1 i2 j1 j2 k1 k2 p of
                                  Inl e \<Rightarrow> Inl e
                                | Inr (global_index, g1) \<Rightarrow>
                                    if global_index \<ge> 0 then Inr (global_index, g1)
                                    else
                                      (let i1 = util_int_max 0 (i - 2);
                                           j1 = util_int_max 0 (j - 2);
                                           k1 = util_int_max 0 (k - 2);
                                           i2 = util_int_min (nx g) (i + 2);
                                           j2 = util_int_min (ny g) (j + 2);
                                           k2 = util_int_min (nz g) (k + 2)
                                       in case ecl_grid_box_contains_xyz tv tc g1 i1 i2 j1 j2 k1 k2 p of
                                            Inl e \<Rightarrow> Inl e
                                          | Inr (global_index, g2) \<Rightarrow>
                                              if global_index \<ge> 0 then Inr (global_index, g2)
                                              else full_scan g2)))))
         else full_scan g)"

text \<open>
  The point locate as the specification words it, for comparison with the function above:
  the cell of the hint, then the 3x3x3 neighbourhood of the hint clipped to the grid, then
  the 5x5x5 neighbourhood, without a second test of a cell already tested, then every cell
  from the hint on, wrapping around.
\<close>

definition locate_as_specified ::
  "(tetrahedron_type \<Rightarrow> real) \<Rightarrow> (tetrahedron_type \<Rightarrow> point_type \<Rightarrow> bool) \<Rightarrow>
   ecl_grid_type \<Rightarrow> real \<Rightarrow> real \<Rightarrow> real \<Rightarrow> int \<Rightarrow> int result" where
  "locate_as_specified tv tc g0 x y z start_index =
     (let p = point_set x y z;
          g = ecl_grid_clear_visited g0
      in case array_get (cells g) start_index of
           Inl e \<Rightarrow> Inl e
         | Inr cell \<Rightarrow>
             (case ecl_cell_contains_point tv tc cell p of
                Inl e \<Rightarrow> Inl e
              | Inr found \<Rightarrow>
                  if found then Inr start_index
                  else
                    (case ecl_grid_get_ijk1 g start_index of
                       Inl e \<Rightarrow> Inl e
                     | Inr (i, j, k) \<Rightarrow>
                         (let g' = g\<lparr>visited := map_option (\<lambda>vis. vis[nat start_index := True]) (visited g)\<rparr>
                          in case ecl_grid_box_contains_xyz tv tc g'
                                    (util_int_max 0 (i - 1)) (util_int_min (nx g) (i + 2))
                                    (util_int_max 0 (j - 1)) (util_int_min (ny g) (j + 2))
                                    (util_int_max 0 (k - 1)) (util_int_min (nz g) (k + 2)) p of
                               Inl e \<Rightarrow> Inl e
                             | Inr (global_index, g1) \<Rightarrow>
                                 if global_index \<ge> 0 then Inr global_index
                                 else
                                   (case ecl_grid_box_contains_xyz tv tc g1
                                           (util_int_max 0 (i - 2)) (util_int_min (nx g) (i + 3))
                                           (util_int_max 0 (j - 2)) (util_int_min (ny g) (j + 3))
                                           (util_int_max 0 (k - 2)) (util_int_min (nz g) (k + 3)) p of
                                      Inl e \<Rightarrow> Inl e
                                    | Inr (global_index, g2) \<Rightarrow>
                                        if global_index \<ge> 0 then Inr global_index
                                        else linear_scan tv tc g2 p start_index 0)))))"

subsection \<open>Value-by-index lookup\<close>

text \<open>
  The keyword type of ecl\_kw.c is not among the sources at hand.  A keyword is taken as
  its element type and its elements; \<open>ecl_kw_iget_as_double\<close> is a parameter \<open>iget\<close> of
  the lookup.
\<close>

datatype ecl_type_enum =
  ECL_CHAR_TYPE | ECL_FLOAT_TYPE | ECL_DOUBLE_TYPE | ECL_INT_TYPE | ECL_BOOL_TYPE | ECL_MESS_TYPE

record ecl_kw_type =
  kw_type :: ecl_type_enum
  kw_data :: "real list"

definition ecl_kw_get_type :: "ecl_kw_type \<Rightarrow> ecl_type_enum" where
  "ecl_kw_get_type kw = kw_type kw"

definition ecl_kw_get_size :: "ecl_kw_type \<Rightarrow> int" where
  "ecl_kw_get_size kw = int (length (kw_data kw))"

text \<open>
  Modelled from the spec: \<open>ecl_kw_iget_as_double\<close> of ecl\_kw.c is missing; the
  specification speaks of the slot of a flat numeric array, and an index outside the array
  is taken as a fatal error.
\<close>

definition ecl_kw_iget_as_double :: "ecl_kw_type \<Rightarrow> int \<Rightarrow> real result" where
  "ecl_kw_iget_as_double kw i =
     (if 0 \<le> i \<and> i < ecl_kw_get_size kw then Inr (kw_data kw ! nat i) else Inl Abort)"

definition ecl_grid_get_property ::
  "(ecl_kw_type \<Rightarrow> int \<Rightarrow> real result) \<Rightarrow> ecl_grid_type \<Rightarrow> ecl_kw_type \<Rightarrow> int \<Rightarrow> int \<Rightarrow> int \<Rightarrow> real result" where
  "ecl_grid_get_property iget g kw i j k =
     (let ecl_type = ecl_kw_get_type kw in
      if ecl_type = ECL_FLOAT_TYPE \<or> ecl_type = ECL_INT_TYPE \<or> ecl_type = ECL_DOUBLE_TYPE then
        (let kw_size = ecl_kw_get_size kw in
         case (if kw_size = nx g * ny g * nz g then ecl_grid_get_global_index3 g i j k
               else if kw_size = total_active g then ecl_grid_get_active_index3 g i j k
               else Inl Abort) of
           Inl e \<Rightarrow> Inl e
         | Inr lookup_index \<Rightarrow>
             if lookup_index \<ge> 0 then iget kw lookup_index else Inr (- 1))
      else Inl Abort)"

subsection \<open>Example cells and grids\<close>

text \<open>
  An axis-aligned unit cube with its lower corner at \<open>(x0, y0, z0)\<close>, the corners
  numbered as in the source (\<open>0\<close> to \<open>3\<close> on the face at \<open>z0\<close>, \<open>4\<close> to \<open>7\<close> on the
  face at \<open>z0 + 1\<close>) and the centre at the centre of the cube.
\<close>

definition cube_cell :: "real \<Rightarrow> real \<Rightarrow> real \<Rightarrow> bool \<Rightarrow> ecl_cell_type" where
  "cube_cell x0 y0 z0 act =
     \<lparr>active = act, active_index = - 1,
      center = point_set (x0 + 1 / 2) (y0 + 1 / 2) (z0 + 1 / 2),
      corner_list =
        [point_set x0 y0 z0, point_set (x0 + 1) y0 z0,
         point_set x0 (y0 + 1) z0, point_set (x0 + 1) (y0 + 1) z0,
         point_set x0 y0 (z0 + 1), point_set (x0 + 1) y0 (z0 + 1),
         point_set x0 (y0 + 1) (z0 + 1), point_set (x0 + 1) (y0 + 1) (z0 + 1)],
      lgr = None, host_cell = - 1, tainted_geometry = False\<rparr>"

text \<open>A cell whose eight corners and centre all lie at the point \<open>(x0, y0, z0)\<close>.\<close>

definition collapsed_cell :: "real \<Rightarrow> real \<Rightarrow> real \<Rightarrow> ecl_cell_type" where
  "collapsed_cell x0 y0 z0 =
     \<lparr>active = True, active_index = - 1, center = point_set x0 y0 z0,
      corner_list = replicate 8 (point_set x0 y0 z0),
      lgr = None, host_cell = - 1, tainted_geometry = False\<rparr>"

text \<open>A main grid with the given dimensions and cells, at address \<open>0\<close>.\<close>

definition grid_of_cells :: "int \<Rightarrow> int \<Rightarrow> int \<Rightarrow> ecl_cell_type list \<Rightarrow> ecl_grid_type" where
  "grid_of_cells nx' ny' nz' cs =
     (ecl_grid_alloc_empty 0 (point_set 0 0 0) 0 0 None nx' ny' nz' 0)\<lparr>cells := cs\<rparr>"

text \<open>
  A grid of two cells in a row, the first inactive and the second active, before and after
  the refresh of the index maps.
\<close>

definition two_cell_grid :: ecl_grid_type where
  "two_cell_grid = grid_of_cells 2 1 1 [cube_cell 0 0 0 False, cube_cell 1 0 0 True]"

definition two_cell_grid_indexed :: ecl_grid_type where
  "two_cell_grid_indexed =
     (grid_of_cells 2 1 1 [cube_cell 0 0 0 False, (cube_cell 1 0 0 True)\<lparr>active_index := 0\<rparr>])
       \<lparr>total_active := 1, index_map := Some [- 1, 0], inv_index_map := Some [1]\<rparr>"

definition double_kw :: "real list \<Rightarrow> ecl_kw_type" where
  "double_kw xs = \<lparr>kw_type = ECL_DOUBLE_TYPE, kw_data = xs\<rparr>"


text \<open>
  A heap with a host grid of two cells at address \<open>0\<close> and an LGR of one active cell,
  named and numbered \<open>1\<close>, at address \<open>1\<close>.
\<close>

definition host_and_lgr :: heap where
  "host_and_lgr =
     [grid_of_cells 2 1 1 [cube_cell 1 1 1 True, cube_cell 2 1 1 True],
      (ecl_grid_alloc_empty 1 (point_set 0 0 0) 0 0 (Some 0) 1 1 1 1)
        \<lparr>name := Some ''LGR1'', cells := [cube_cell 1 1 1 True]\<rparr>]"

text \<open>
  A row of five cells in which the cells \<open>0\<close> and \<open>3\<close> are the same unit cube and the
  other three lie far away, and a point inside that cube.
\<close>

definition five_cell_grid :: ecl_grid_type where
  "five_cell_grid =
     grid_of_cells 5 1 1
       [cube_cell 1 1 1 True, cube_cell 10 1 1 True, cube_cell 20 1 1 True,
        cube_cell 1 1 1 True, cube_cell 30 1 1 True]"

section \<open>Properties\<close>

subsection \<open>Index translator\<close>

lemma sdiv_nonneg_eq_div:
  fixes a b :: int
  assumes "0 \<le> a" "0 < b"
  shows "a sdiv b = a div b"
  using assms by (simp add: signed_divide_int_def sgn_if)

lemma ijk_valid_iff:
  "ecl_grid_ijk_valid g i j k \<longleftrightarrow>
     0 \<le> i \<and> i < nx g \<and> 0 \<le> j \<and> j < ny g \<and> 0 \<le> k \<and> k < nz g"
  by (auto simp add: ecl_grid_ijk_valid_def)

lemma global_index_decode:
  fixes i j k n m :: int
  assumes "0 \<le> i" "i < n" "0 \<le> j" "j < m" "0 \<le> k"
  shows "(i + j * n + k * n * m) div (n * m) = k"
    and "(i + j * n + k * n * m - k * (n * m)) div n = j"
proof -
  have n: "0 < n" and m: "0 < m" using assms by linarith+
  have "j * n \<le> (m - 1) * n" using assms n by (intro mult_right_mono) auto
  then have lt: "i + j * n < n * m" using assms by (simp add: algebra_simps)
  have ge: "0 \<le> i + j * n" using assms n by simp
  have "(i + j * n + k * n * m) div (n * m) = (i + j * n + k * (n * m)) div (n * m)"
    by (simp add: mult.assoc)
  also have "\<dots> = (i + j * n) div (n * m) + k"
    using n m by simp
  also have "(i + j * n) div (n * m) = 0"
    using ge lt by (simp add: div_pos_pos_trivial)
  finally show "(i + j * n + k * n * m) div (n * m) = k" by simp
  have "(i + j * n + k * n * m - k * (n * m)) div n = (i + j * n) div n"
    by (simp add: algebra_simps)
  also have "\<dots> = i div n + j" using n by simp
  also have "i div n = 0" using assms by (simp add: div_pos_pos_trivial)
  finally show "(i + j * n + k * n * m - k * (n * m)) div n = j" by simp
qed

text \<open>
  Claim C2.  On a grid whose number of cells \<open>nx * ny * nz\<close> is a value of the C type
  \<open>int\<close>, as it is for every grid that has been allocated, and for every in-range
  \<open>(i, j, k)\<close>: the forward conversion \<open>ecl_grid_get_global_index3\<close> returns
  \<open>i + j * nx + k * nx * ny\<close>, \<open>ecl_grid_get_ijk1\<close> recovers exactly \<open>(i, j, k)\<close>
  from that value, and every product, sum and difference that the two functions compute
  is a value of the type \<open>int\<close>.  For every \<open>(i, j, k)\<close> outside the ranges the
  forward conversion aborts.
\<close>

theorem global_index_roundtrip_or_abort:
  "(0 \<le> i \<and> i < nx g \<and> 0 \<le> j \<and> j < ny g \<and> 0 \<le> k \<and> k < nz g \<and>
    nx g * ny g * nz g \<le> INT_MAX \<longrightarrow>
      ecl_grid_get_global_index3 g i j k = Inr (i + j * nx g + k * nx g * ny g) \<and>
      ecl_grid_get_ijk1 g (i + j * nx g + k * nx g * ny g) = Inr (i, j, k) \<and>
      c_int_range (j * nx g) \<and> c_int_range (i + j * nx g) \<and>
      c_int_range (k * nx g) \<and> c_int_range (k * nx g * ny g) \<and>
      c_int_range (i + j * nx g + k * nx g * ny g) \<and>
      c_int_range (nx g * ny g) \<and> c_int_range (k * (nx g * ny g)) \<and>
      c_int_range (i + j * nx g + k * nx g * ny g - k * (nx g * ny g)) \<and>
      c_int_range (i + j * nx g + k * nx g * ny g - k * (nx g * ny g) - j * nx g)) \<and>
   (\<not> (0 \<le> i \<and> i < nx g \<and> 0 \<le> j \<and> j < ny g \<and> 0 \<le> k \<and> k < nz g) \<longrightarrow>
      ecl_grid_get_global_index3 g i j k = Inl Abort)"
proof (intro conjI impI)
  assume "\<not> (0 \<le> i \<and> i < nx g \<and> 0 \<le> j \<and> j < ny g \<and> 0 \<le> k \<and> k < nz g)"
  then show "ecl_grid_get_global_index3 g i j k = Inl Abort"
    by (simp add: ecl_grid_get_global_index3_def ijk_valid_iff)
next
  assume vb: "0 \<le> i \<and> i < nx g \<and> 0 \<le> j \<and> j < ny g \<and> 0 \<le> k \<and> k < nz g \<and>
    nx g * ny g * nz g \<le> INT_MAX"
  then have v: "0 \<le> i \<and> i < nx g \<and> 0 \<le> j \<and> j < ny g \<and> 0 \<le> k \<and> k < nz g"
    and bound: "nx g * ny g * nz g \<le> INT_MAX" by simp_all
  let ?G = "i + j * nx g + k * nx g * ny g"
  have n: "0 < nx g" and m: "0 < ny g" and l: "0 < nz g" using v by linarith+
  have nm: "0 < nx g * ny g" using n m by simp
  have jn0: "0 \<le> j * nx g" and kn0: "0 \<le> k * nx g" and knm0: "0 \<le> k * nx g * ny g"
    using v n m by simp_all
  have G0: "0 \<le> ?G" using v jn0 knm0 by linarith
  have "j * nx g \<le> (ny g - 1) * nx g" using v n by (intro mult_right_mono) auto
  then have ijn: "i + j * nx g < nx g * ny g" using v by (simp add: algebra_simps)
  have "k * (nx g * ny g) \<le> (nz g - 1) * (nx g * ny g)"
    using v nm by (intro mult_right_mono) auto
  then have knm: "k * (nx g * ny g) + nx g * ny g \<le> nx g * ny g * nz g"
    by (simp add: algebra_simps)
  have Glt: "?G < nx g * ny g * nz g" using ijn knm by (simp add: algebra_simps)
  have nm_le: "nx g * ny g \<le> nx g * ny g * nz g" using knm knm0 by (simp add: algebra_simps)
  have "k * nx g * 1 \<le> k * nx g * ny g" using kn0 m by (intro mult_left_mono) auto
  then have kn_le: "k * nx g \<le> k * nx g * ny g" by simp
  have d1: "?G div (nx g * ny g) = k"
    using global_index_decode(1)[of i "nx g" j "ny g" k] v by simp
  have d2: "(?G - k * (nx g * ny g)) div nx g = j"
    using global_index_decode(2)[of i "nx g" j "ny g" k] v by simp
  have r0: "0 \<le> ?G - k * (nx g * ny g)"
    using v n by (simp add: algebra_simps)
  have "?G sdiv (nx g * ny g) = k"
    using sdiv_nonneg_eq_div[OF G0 nm] d1 by simp
  then have s1: "c_div ?G (nx g * ny g) = Inr k"
    using n m by (simp add: c_div_def)
  have "(?G - k * (nx g * ny g)) sdiv nx g = j"
    using sdiv_nonneg_eq_div[OF r0 n] d2 by simp
  then have s2: "c_div (?G - k * (nx g * ny g)) (nx g) = Inr j"
    using n by (simp add: c_div_def)
  have rest1: "?G - k * (nx g * ny g) = i + j * nx g" by (simp add: algebra_simps)
  have rest2: "?G - k * (nx g * ny g) - j * nx g = i" by (simp add: algebra_simps)
  have M: "0 \<le> INT_MAX" by (simp add: INT_MAX_def)
  show "ecl_grid_get_global_index3 g i j k = Inr ?G"
    using v by (simp add: ecl_grid_get_global_index3_def ijk_valid_iff
        ecl_grid_get_global_index_unchecked_def)
  show "ecl_grid_get_ijk1 g ?G = Inr (i, j, k)"
    unfolding ecl_grid_get_ijk1_def s1 sum.case Let_def s2 by simp
  show "c_int_range (j * nx g)"
    unfolding c_int_range_def using jn0 ijn nm_le bound v M by linarith
  show "c_int_range (i + j * nx g)"
    unfolding c_int_range_def using jn0 ijn nm_le bound v M by linarith
  show "c_int_range (k * nx g)"
    unfolding c_int_range_def using kn0 kn_le knm0 Glt jn0 bound v M by linarith
  show "c_int_range (k * nx g * ny g)"
    unfolding c_int_range_def using knm0 Glt jn0 bound v M by linarith
  show "c_int_range ?G"
    unfolding c_int_range_def using G0 Glt bound M by linarith
  show "c_int_range (nx g * ny g)"
    unfolding c_int_range_def using nm nm_le bound M by linarith
  show "c_int_range (k * (nx g * ny g))"
    unfolding c_int_range_def using knm nm knm0 bound M by (simp add: algebra_simps)
  show "c_int_range (?G - k * (nx g * ny g))"
    unfolding rest1 c_int_range_def using jn0 ijn nm_le bound v M by linarith
  show "c_int_range (?G - k * (nx g * ny g) - j * nx g)"
    unfolding rest2 c_int_range_def using ijn jn0 nm_le bound v M by linarith
qed

theorem global_index_roundtrip_or_abort_witness:
  "nx (grid_of_cells 2 2 2 []) * ny (grid_of_cells 2 2 2 []) * nz (grid_of_cells 2 2 2 []) \<le> INT_MAX \<and>
   ecl_grid_get_global_index3 (grid_of_cells 2 2 2 []) 1 1 1 = Inr 7 \<and>
   ecl_grid_get_ijk1 (grid_of_cells 2 2 2 []) 7 = Inr (1, 1, 1) \<and>
   ecl_grid_get_global_index3 (grid_of_cells 2 2 2 []) 2 0 0 = Inl Abort"
  using global_index_roundtrip_or_abort [of 1 "grid_of_cells 2 2 2 []" 1 1]
    global_index_roundtrip_or_abort [of 2 "grid_of_cells 2 2 2 []" 0 0]
  by (simp add: grid_of_cells_def ecl_grid_alloc_empty_def INT_MAX_def)

subsection \<open>Counting loops\<close>

lemma loop_from_rule:
  assumes "i \<le> n" "P i s"
    and step: "\<And>m t. i \<le> m \<Longrightarrow> m < n \<Longrightarrow> P m t \<Longrightarrow> \<exists>t'. body m t = Inr t' \<and> P (m + 1) t'"
  shows "\<exists>s'. loop_from i n body s = Inr s' \<and> P n s'"
  using assms
proof (induction i n body s rule: loop_from.induct)
  case (1 i n body s)
  show ?case
  proof (cases "i < n")
    case True
    from "1.prems"(3)[of i s] True "1.prems"(2)
    obtain t' where t': "body i s = Inr t'" "P (i + 1) t'" by auto
    have "\<exists>s'. loop_from (i + 1) n body t' = Inr s' \<and> P n s'"
    proof (rule "1.IH"[OF True t'(1)])
      show "i + 1 \<le> n" using True by simp
      show "P (i + 1) t'" by fact
      fix m t assume "i + 1 \<le> m" "m < n" "P m t"
      then show "\<exists>t'. body m t = Inr t' \<and> P (m + 1) t'"
        using "1.prems"(3)[of m t] by simp
    qed
    then show ?thesis using True t'(1) by (subst loop_from.simps) simp
  next
    case False
    then have "i = n" using "1.prems"(1) by simp
    then show ?thesis using "1.prems"(2) by (subst loop_from.simps) simp
  qed
qed

lemma loop_from_empty: "n \<le> i \<Longrightarrow> loop_from i n body s = Inr s"
  by (subst loop_from.simps) simp

subsection \<open>Active index and index maps\<close>

lemma active_rank_Suc:
  "m < length cs \<Longrightarrow> active_rank cs (Suc m) = active_rank cs m + (if active (cs ! m) then 1 else 0)"
  by (simp add: active_rank_def take_Suc_conv_app_nth)

lemma length_ranked_cells [simp]: "length (ranked_cells cs m) = length cs"
  by (simp add: ranked_cells_def)

lemma nth_ranked_cells:
  "h < length cs \<Longrightarrow> ranked_cells cs m ! h =
     (if h < m then (cs ! h)\<lparr>active_index := (if active (cs ! h) then active_rank cs h else - 1)\<rparr>
      else cs ! h)"
  by (simp add: ranked_cells_def)

lemma ranked_cells_step:
  assumes "m < length cs"
  shows "(ranked_cells cs m)[m := (cs ! m)\<lparr>active_index := (if active (cs ! m) then active_rank cs m else - 1)\<rparr>]
         = ranked_cells cs (Suc m)"
  using assms
  by (auto simp add: list_eq_iff_nth_eq nth_ranked_cells nth_list_update less_Suc_eq)

lemma set_active_index_body_step:
  assumes "m < length cs" "ecl_grid_get_global_index_unchecked g i j k = int m"
  shows "set_active_index_body g k j i (ranked_cells cs m, active_rank cs m)
         = Inr (ranked_cells cs (Suc m), active_rank cs (Suc m))"
proof -
  have get: "array_get (ranked_cells cs m) (int m) = Inr (cs ! m)"
    using assms(1) by (simp add: array_get_def nth_ranked_cells)
  show ?thesis
    using assms(1) ranked_cells_step[OF assms(1)]
    by (auto simp add: set_active_index_body_def assms(2) get active_rank_Suc Let_def)
qed

lemma global_index_bounds:
  fixes i j k N M L :: int
  assumes "0 \<le> i" "i < N" "0 \<le> j" "j < M" "0 \<le> k" "k < L"
  shows "0 \<le> i + j * N + k * N * M" and "i + j * N + k * N * M < N * M * L"
proof -
  have N: "0 < N" and M: "0 < M" using assms by linarith+
  have a: "0 \<le> j * N" "0 \<le> k * N * M" using assms N M by simp_all
  then show "0 \<le> i + j * N + k * N * M" using assms by linarith
  have "j * N \<le> (M - 1) * N" using assms N by (intro mult_right_mono) auto
  then have b: "i + j * N < N * M" using assms by (simp add: algebra_simps)
  have "k * (N * M) \<le> (L - 1) * (N * M)" using assms N M by (intro mult_right_mono) auto
  then show "i + j * N + k * N * M < N * M * L" using b by (simp add: algebra_simps)
qed

lemma set_active_index_inner:
  assumes dims: "0 \<le> nx g" "int (length cs) = nx g * ny g * nz g"
    and jk: "0 \<le> j" "j < ny g" "0 \<le> k" "k < nz g"
  shows "loop_from 0 (nx g) (\<lambda>i. set_active_index_body g k j i)
           (ranked_cells cs (nat (j * nx g + k * nx g * ny g)),
            active_rank cs (nat (j * nx g + k * nx g * ny g)))
         = Inr (ranked_cells cs (nat ((j + 1) * nx g + k * nx g * ny g)),
                active_rank cs (nat ((j + 1) * nx g + k * nx g * ny g)))"
proof -
  let ?pos = "\<lambda>i. nat (i + j * nx g + k * nx g * ny g)"
  let ?P = "\<lambda>i t. t = (ranked_cells cs (?pos i), active_rank cs (?pos i))"
  have "\<exists>s'. loop_from 0 (nx g) (\<lambda>i. set_active_index_body g k j i)
                 (ranked_cells cs (?pos 0), active_rank cs (?pos 0)) = Inr s' \<and> ?P (nx g) s'"
  proof (rule loop_from_rule[where P = ?P])
    show "0 \<le> nx g" by fact
    show "?P 0 (ranked_cells cs (?pos 0), active_rank cs (?pos 0))" by simp
    fix m t assume m: "0 \<le> m" "m < nx g" and t: "?P m t"
    have b0: "0 \<le> m + j * nx g + k * nx g * ny g"
      and b1: "m + j * nx g + k * nx g * ny g < nx g * ny g * nz g"
      using global_index_bounds[OF m jk] by simp_all
    have lt: "?pos m < length cs" using b0 b1 dims(2) by linarith
    have gi: "ecl_grid_get_global_index_unchecked g m j k = int (?pos m)"
      using b0 by (simp add: ecl_grid_get_global_index_unchecked_def)
    have suc: "Suc (?pos m) = ?pos (m + 1)" using b0 by linarith
    show "\<exists>t'. set_active_index_body g k j m t = Inr t' \<and> ?P (m + 1) t'"
      using set_active_index_body_step[OF lt gi] t suc by simp
  qed
  then show ?thesis by (simp add: algebra_simps)
qed

lemma set_active_index_middle:
  assumes dims: "0 \<le> nx g" "0 \<le> ny g" "int (length cs) = nx g * ny g * nz g"
    and k: "0 \<le> k" "k < nz g"
  shows "loop_from 0 (ny g) (\<lambda>j. loop_from 0 (nx g) (\<lambda>i. set_active_index_body g k j i))
           (ranked_cells cs (nat (k * nx g * ny g)), active_rank cs (nat (k * nx g * ny g)))
         = Inr (ranked_cells cs (nat ((k + 1) * nx g * ny g)),
                active_rank cs (nat ((k + 1) * nx g * ny g)))"
proof -
  let ?pos = "\<lambda>j. nat (j * nx g + k * nx g * ny g)"
  let ?P = "\<lambda>j t. t = (ranked_cells cs (?pos j), active_rank cs (?pos j))"
  have "\<exists>s'. loop_from 0 (ny g) (\<lambda>j. loop_from 0 (nx g) (\<lambda>i. set_active_index_body g k j i))
                 (ranked_cells cs (?pos 0), active_rank cs (?pos 0)) = Inr s' \<and> ?P (ny g) s'"
  proof (rule loop_from_rule[where P = ?P])
    show "0 \<le> ny g" by fact
    show "?P 0 (ranked_cells cs (?pos 0), active_rank cs (?pos 0))" by simp
    fix m t assume m: "0 \<le> m" "m < ny g" and t: "?P m t"
    show "\<exists>t'. loop_from 0 (nx g) (\<lambda>i. set_active_index_body g k m i) t = Inr t' \<and> ?P (m + 1) t'"
      using set_active_index_inner[OF dims(1) dims(3) m k] t by simp
  qed
  then show ?thesis by (simp add: algebra_simps)
qed

lemma set_active_index_outer:
  assumes dims: "0 \<le> nx g" "0 \<le> ny g" "0 \<le> nz g" "int (length cs) = nx g * ny g * nz g"
  shows "loop_from 0 (nz g) (\<lambda>k. loop_from 0 (ny g) (\<lambda>j.
            loop_from 0 (nx g) (\<lambda>i. set_active_index_body g k j i))) (cs, 0)
         = Inr (ranked_cells cs (length cs), active_rank cs (length cs))"
proof -
  let ?pos = "\<lambda>k. nat (k * nx g * ny g)"
  let ?P = "\<lambda>k t. t = (ranked_cells cs (?pos k), active_rank cs (?pos k))"
  have r0: "ranked_cells cs 0 = cs" by (simp add: ranked_cells_def map_nth)
  have "\<exists>s'. loop_from 0 (nz g) (\<lambda>k. loop_from 0 (ny g) (\<lambda>j.
            loop_from 0 (nx g) (\<lambda>i. set_active_index_body g k j i))) (cs, 0) = Inr s' \<and> ?P (nz g) s'"
  proof (rule loop_from_rule[where P = ?P])
    show "0 \<le> nz g" by fact
    show "?P 0 (cs, 0)" by (simp add: r0 active_rank_def)
    fix m t assume m: "0 \<le> m" "m < nz g" and t: "?P m t"
    show "\<exists>t'. loop_from 0 (ny g) (\<lambda>j. loop_from 0 (nx g) (\<lambda>i. set_active_index_body g m j i)) t = Inr t'
               \<and> ?P (m + 1) t'"
      using set_active_index_middle[OF dims(1) dims(2) dims(4) m] t by simp
  qed
  moreover have "nz g * nx g * ny g = nx g * ny g * nz g" by simp
  then have "?pos (nz g) = length cs"
    using dims(4) by linarith
  ultimately show ?thesis by simp
qed

lemma set_active_index_result:
  assumes "grid_dims_ok g"
  shows "ecl_grid_set_active_index g =
           Inr (g\<lparr>cells := ranked_cells (cells g) (length (cells g)),
                  total_active := active_rank (cells g) (length (cells g))\<rparr>)"
  using assms set_active_index_outer[of g "cells g"]
  by (simp add: ecl_grid_set_active_index_def grid_dims_ok_def)

lemma active_rank_mono: "h \<le> m \<Longrightarrow> active_rank cs h \<le> active_rank cs m"
proof -
  assume "h \<le> m"
  then have "take m cs = take h cs @ take (m - h) (drop h cs)"
    by (metis le_add_diff_inverse take_add)
  then show ?thesis by (simp add: active_rank_def)
qed

lemma active_rank_strict:
  assumes "h < m" "m \<le> length cs" "active (cs ! h)"
  shows "active_rank cs h < active_rank cs m"
proof -
  have "active_rank cs (Suc h) = active_rank cs h + 1"
    using assms by (simp add: active_rank_Suc)
  moreover have "active_rank cs (Suc h) \<le> active_rank cs m"
    using assms(1) by (intro active_rank_mono) simp
  ultimately show ?thesis by simp
qed

lemma active_rank_nonneg: "0 \<le> active_rank cs m"
  by (simp add: active_rank_def)

lemma concat_rows:
  "concat (map (\<lambda>b. map (\<lambda>a. f (a + b * n)) [0..<n]) [0..<m]) = map f [0..<n * m]"
proof (induction m)
  case 0
  show ?case by simp
next
  case (Suc m)
  have "[0..<n * Suc m] = [0..<n * m] @ [n * m..<n * m + n]"
    by (metis le_add2 le_add_same_cancel2 mult_Suc_right upt_add_eq_append add.commute)
  moreover have "[n * m..<n * m + n] = map (\<lambda>a. a + m * n) [0..<n]"
    by (simp add: map_add_upt mult.commute add.commute)
  ultimately have "map f [0..<n * Suc m] = map f [0..<n * m] @ map (\<lambda>a. f (a + m * n)) [0..<n]"
    by (simp add: comp_def)
  then show ?case using Suc by simp
qed

lemma map_kji_traversal:
  assumes "\<And>i j k. h (int i, int j, int k) = F (i + j * nat (nx g) + k * (nat (nx g) * nat (ny g)))"
  shows "map h (kji_traversal g) = map F [0..<nat (nx g) * nat (ny g) * nat (nz g)]"
proof -
  let ?N = "nat (nx g)" and ?M = "nat (ny g)" and ?L = "nat (nz g)"
  have "map h (kji_traversal g) =
        concat (map (\<lambda>k. concat (map (\<lambda>j. map (\<lambda>i. F (i + j * ?N + k * (?N * ?M))) [0..<?N]) [0..<?M])) [0..<?L])"
    by (simp add: kji_traversal_def map_concat comp_def assms)
  also have "\<dots> = concat (map (\<lambda>k. map (\<lambda>x. F (x + k * (?N * ?M))) [0..<?N * ?M]) [0..<?L])"
  proof -
    have "\<And>k. concat (map (\<lambda>j. map (\<lambda>i. F (i + j * ?N + k * (?N * ?M))) [0..<?N]) [0..<?M])
              = map (\<lambda>x. F (x + k * (?N * ?M))) [0..<?N * ?M]"
      using concat_rows[of "\<lambda>x. F (x + _ * (?N * ?M))" ?N ?M] by simp
    then show ?thesis by simp
  qed
  also have "\<dots> = map F [0..<?N * ?M * ?L]"
    using concat_rows[of F "?N * ?M" ?L] by simp
  finally show ?thesis .
qed

lemma traversal_global_index:
  assumes "grid_dims_ok g"
  shows "map (\<lambda>(i, j, k). ecl_grid_get_global_index_unchecked g i j k) (kji_traversal g)
         = map int [0..<length (cells g)]"
proof -
  have nn: "0 \<le> nx g" "0 \<le> ny g" "0 \<le> nz g" and len: "int (length (cells g)) = nx g * ny g * nz g"
    using assms by (simp_all add: grid_dims_ok_def)
  have "int (nat (nx g) * nat (ny g) * nat (nz g)) = nx g * ny g * nz g"
    using nn by simp
  then have L: "nat (nx g) * nat (ny g) * nat (nz g) = length (cells g)"
    using len by linarith
  have "map (\<lambda>(i, j, k). ecl_grid_get_global_index_unchecked g i j k) (kji_traversal g)
        = map int [0..<nat (nx g) * nat (ny g) * nat (nz g)]"
  proof (rule map_kji_traversal)
    fix i j k :: nat
    show "(case (int i, int j, int k) of (i, j, k) \<Rightarrow> ecl_grid_get_global_index_unchecked g i j k)
          = int (i + j * nat (nx g) + k * (nat (nx g) * nat (ny g)))"
      using nn by (simp add: ecl_grid_get_global_index_unchecked_def)
  qed
  then show ?thesis by (simp only: L)
qed

lemma traversal_cells:
  assumes "grid_dims_ok g" "length cs = length (cells g)"
  shows "map (cell_at cs g) (kji_traversal g) = cs"
proof -
  have "map (cell_at cs g) (kji_traversal g)
        = map (\<lambda>h. cs ! nat h) (map (\<lambda>(i, j, k). ecl_grid_get_global_index_unchecked g i j k) (kji_traversal g))"
    by (simp add: cell_at_def comp_def case_prod_unfold)
  also have "\<dots> = map (\<lambda>h. cs ! h) [0..<length cs]"
    by (simp add: traversal_global_index[OF assms(1)] assms(2) comp_def)
  finally show ?thesis by (simp add: map_nth)
qed

lemma traversal_rank:
  assumes "grid_dims_ok g" "length cs = length (cells g)"
  shows "int (length (filter (\<lambda>ijk. active (cell_at cs g ijk)) (take p (kji_traversal g))))
         = active_rank cs p"
proof -
  have "length (filter (\<lambda>ijk. active (cell_at cs g ijk)) (take p (kji_traversal g)))
        = length (filter active (map (cell_at cs g) (take p (kji_traversal g))))"
    by (simp add: filter_map comp_def)
  also have "map (cell_at cs g) (take p (kji_traversal g)) = take p cs"
    by (simp add: traversal_cells[OF assms] flip: take_map)
  finally show ?thesis by (simp add: active_rank_def)
qed

lemma realloc_index_map_body_step:
  assumes m: "m < length cs"
    and g: "cells g = ranked_cells cs (length cs)"
    and inv: "realloc_inv cs m st"
  shows "\<exists>st'. realloc_index_map_body g (int m) st = Inr st' \<and> realloc_inv cs (Suc m) st'"
proof -
  obtain imap invm where st: "st = (imap, invm)" by (cases st)
  have li: "length imap = length cs" and lv: "int (length invm) = active_rank cs (length cs)"
    and I3: "\<forall>h<m. imap ! h = (if active (cs ! h) then active_rank cs h else - 1)"
    and I4: "\<forall>h<m. active (cs ! h) \<longrightarrow> invm ! nat (active_rank cs h) = int h"
    and I5: "\<forall>a. int a < active_rank cs m \<longrightarrow>
             (\<exists>h<m. active (cs ! h) \<and> active_rank cs h = int a \<and> invm ! a = int h)"
    using inv by (simp_all add: realloc_inv_def st)
  let ?cell = "(cs ! m)\<lparr>active_index := (if active (cs ! m) then active_rank cs m else - 1)\<rparr>"
  have get: "array_get (cells g) (int m) = Inr ?cell"
    using m by (simp add: g array_get_def nth_ranked_cells)
  show ?thesis
  proof (cases "active (cs ! m)")
    case False
    have s1: "array_set imap (int m) (- 1) = Inr (imap[m := - 1])"
      using m li by (simp add: array_set_def)
    have res: "realloc_index_map_body g (int m) st = Inr (imap[m := - 1], invm)"
      using False by (simp add: realloc_index_map_body_def st get s1)
    have r: "active_rank cs (Suc m) = active_rank cs m"
      using m False by (simp add: active_rank_Suc)
    have "realloc_inv cs (Suc m) (imap[m := - 1], invm)"
      unfolding realloc_inv_def prod.case r
    proof (intro conjI allI impI)
      show "length (imap[m := - 1]) = length cs" using li by simp
      show "int (length invm) = active_rank cs (length cs)" by fact
      fix h assume "h < Suc m"
      then show "imap[m := - 1] ! h = (if active (cs ! h) then active_rank cs h else - 1)"
        using I3 False m li by (cases "h = m") (auto simp add: less_Suc_eq)
    next
      fix h assume "h < Suc m" "active (cs ! h)"
      then have "h < m" using False by (cases "h = m") auto
      then show "invm ! nat (active_rank cs h) = int h" using I4 \<open>active (cs ! h)\<close> by simp
    next
      fix a assume "int a < active_rank cs m"
      then obtain h where "h < m" "active (cs ! h)" "active_rank cs h = int a" "invm ! a = int h"
        using I5 by blast
      then show "\<exists>h<Suc m. active (cs ! h) \<and> active_rank cs h = int a \<and> invm ! a = int h"
        by (intro exI[of _ h]) simp
    qed
    then show ?thesis using res by simp
  next
    case True
    let ?r = "active_rank cs m"
    have r0: "0 \<le> ?r" by (rule active_rank_nonneg)
    have rlt: "?r < active_rank cs (length cs)"
      using active_rank_strict[OF m _ True] by simp
    have s1: "array_set imap (int m) ?r = Inr (imap[m := ?r])"
      using m li by (simp add: array_set_def)
    have s2: "array_set invm ?r (int m) = Inr (invm[nat ?r := int m])"
      using r0 rlt lv by (simp add: array_set_def)
    have res: "realloc_index_map_body g (int m) st = Inr (imap[m := ?r], invm[nat ?r := int m])"
      using True by (simp add: realloc_index_map_body_def st get s1 s2)
    have r: "active_rank cs (Suc m) = ?r + 1"
      using m True by (simp add: active_rank_Suc)
    have nlt: "nat ?r < length invm" using r0 rlt lv by linarith
    have "realloc_inv cs (Suc m) (imap[m := ?r], invm[nat ?r := int m])"
      unfolding realloc_inv_def prod.case r
    proof (intro conjI allI impI)
      show "length (imap[m := ?r]) = length cs" using li by simp
      show "int (length (invm[nat ?r := int m])) = active_rank cs (length cs)" using lv by simp
      fix h assume "h < Suc m"
      then show "imap[m := ?r] ! h = (if active (cs ! h) then active_rank cs h else - 1)"
        using I3 True m li by (cases "h = m") (auto simp add: less_Suc_eq)
    next
      fix h assume h: "h < Suc m" "active (cs ! h)"
      show "invm[nat ?r := int m] ! nat (active_rank cs h) = int h"
      proof (cases "h = m")
        case True
        then show ?thesis using nlt by simp
      next
        case False
        then have hm: "h < m" using h by simp
        have "active_rank cs h < ?r"
          using active_rank_strict[OF hm _ h(2)] m by simp
        then have "nat (active_rank cs h) \<noteq> nat ?r"
          using active_rank_nonneg[of cs h] by linarith
        then show ?thesis using I4 hm h(2) by simp
      qed
    next
      fix a assume a: "int a < ?r + 1"
      show "\<exists>h<Suc m. active (cs ! h) \<and> active_rank cs h = int a \<and> invm[nat ?r := int m] ! a = int h"
      proof (cases "int a = ?r")
        case True
        then have "a = nat ?r" by simp
        then show ?thesis using \<open>active (cs ! m)\<close> True nlt by (intro exI[of _ m]) simp
      next
        case False
        then have "int a < ?r" using a by simp
        then obtain h where hh: "h < m" "active (cs ! h)" "active_rank cs h = int a" "invm ! a = int h"
          using I5 by blast
        have "a \<noteq> nat ?r" using False r0 by linarith
        then show ?thesis using hh by (intro exI[of _ h]) simp
      qed
    qed
    then show ?thesis using res by simp
  qed
qed

lemma length_util_realloc [simp]: "length (util_realloc old n fill) = nat n"
  by (simp add: util_realloc_def Let_def)

lemma realloc_index_map_result:
  assumes g: "cells g = ranked_cells cs (length cs)"
    and sz: "size_grid g = int (length cs)"
    and ta: "total_active g = active_rank cs (length cs)"
  shows "\<exists>imap invm. ecl_grid_realloc_index_map fill1 fill2 g
            = Inr (g\<lparr>index_map := Some imap, inv_index_map := Some invm\<rparr>)
          \<and> realloc_inv cs (length cs) (imap, invm)"
proof -
  let ?imap0 = "util_realloc (index_map g) (size_grid g) fill1"
  let ?inv0 = "util_realloc (inv_index_map g) (total_active g) fill2"
  have "\<exists>s'. loop_from 0 (int (length cs)) (realloc_index_map_body g) (?imap0, ?inv0) = Inr s'
             \<and> realloc_inv cs (nat (int (length cs))) s'"
  proof (rule loop_from_rule[where P = "\<lambda>i. realloc_inv cs (nat i)"])
    show "0 \<le> int (length cs)" by simp
    show "realloc_inv cs (nat 0) (?imap0, ?inv0)"
      using active_rank_nonneg[of cs "length cs"]
      by (simp add: realloc_inv_def sz ta active_rank_def)
    fix m t assume m: "0 \<le> m" "m < int (length cs)" and t: "realloc_inv cs (nat m) t"
    have "nat m < length cs" using m by linarith
    from realloc_index_map_body_step[OF this g t]
    show "\<exists>t'. realloc_index_map_body g m t = Inr t' \<and> realloc_inv cs (nat (m + 1)) t'"
      using m by (simp add: nat_add_distrib)
  qed
  then obtain imap invm where
    "loop_from 0 (int (length cs)) (realloc_index_map_body g) (?imap0, ?inv0) = Inr (imap, invm)"
    "realloc_inv cs (length cs) (imap, invm)"
    by auto
  then show ?thesis
    by (intro exI[of _ imap] exI[of _ invm]) (simp add: ecl_grid_realloc_index_map_def Let_def sz)
qed

lemma map_active_ranked: "map active (ranked_cells cs m) = map active cs"
  by (simp add: list_eq_iff_nth_eq nth_ranked_cells)

lemma active_rank_cong:
  assumes "map active cs' = map active cs"
  shows "active_rank cs' m = active_rank cs m"
proof -
  have eq: "length (filter active (take m xs)) = length (filter id (take m (map active xs)))" for xs
    by (simp add: take_map filter_map comp_def)
  have "length (filter active (take m cs')) = length (filter active (take m cs))"
    unfolding eq assms ..
  then show ?thesis by (simp add: active_rank_def)
qed

lemma update_index_result:
  assumes ok: "grid_dims_ok g"
  shows "\<exists>imap invm. ecl_grid_update_index fill1 fill2 g
            = Inr (g\<lparr>cells := ranked_cells (cells g) (length (cells g)),
                     total_active := active_rank (cells g) (length (cells g)),
                     index_map := Some imap, inv_index_map := Some invm\<rparr>)
          \<and> realloc_inv (cells g) (length (cells g)) (imap, invm)"
proof -
  let ?cs = "cells g"
  let ?g1 = "g\<lparr>cells := ranked_cells ?cs (length ?cs), total_active := active_rank ?cs (length ?cs)\<rparr>"
  have s1: "ecl_grid_set_active_index g = Inr ?g1"
    by (rule set_active_index_result[OF ok])
  have "size_grid ?g1 = int (length ?cs)" using ok by (simp add: grid_dims_ok_def)
  from realloc_index_map_result[of ?g1 ?cs, OF _ this, of fill1 fill2]
  obtain imap invm where
    "ecl_grid_realloc_index_map fill1 fill2 ?g1
       = Inr (?g1\<lparr>index_map := Some imap, inv_index_map := Some invm\<rparr>)"
    "realloc_inv ?cs (length ?cs) (imap, invm)"
    by auto
  then show ?thesis
    by (intro exI[of _ imap] exI[of _ invm]) (simp add: ecl_grid_update_index_def s1)
qed

lemma alloc_empty_dims_ok:
  assumes "0 \<le> nx'" "0 \<le> ny'" "0 \<le> nz'"
  shows "grid_dims_ok (ecl_grid_alloc_empty self ep junk jt gg nx' ny' nz' nr)"
  using assms by (simp add: grid_dims_ok_def ecl_grid_alloc_empty_def)

text \<open>
  Claim C1.  On a grid as \<open>ecl_grid_alloc_empty\<close> lays it out, the refresh pass
  \<open>ecl_grid_update_index\<close> returns, and afterwards: the traversal with \<open>k\<close>
  outermost, then \<open>j\<close>, then \<open>i\<close> visits every cell once; the cell visited at
  position \<open>p\<close> has as active index the number of active cells visited before it
  when it is active and \<open>-1\<close> otherwise; the entry of \<open>index_map\<close> for a global
  index is the active index of its cell, or \<open>-1\<close>; \<open>inv_index_map\<close> has
  \<open>total_active\<close> entries and is the inverse of \<open>index_map\<close> on the active cells;
  and \<open>total_active\<close> is the number of active cells.
\<close>

theorem update_index_dense_rank:
  assumes ok: "grid_dims_ok g"
  shows "\<exists>g' imap invm.
     ecl_grid_update_index fill1 fill2 g = Inr g' \<and>
     g' = g\<lparr>cells := cells g', total_active := total_active g',
             index_map := Some imap, inv_index_map := Some invm\<rparr> \<and>
     map active (cells g') = map active (cells g) \<and>
     map (\<lambda>(i, j, k). ecl_grid_get_global_index_unchecked g' i j k) (kji_traversal g')
       = map int [0..<length (cells g')] \<and>
     (\<forall>p<length (kji_traversal g').
        active_index (cell_at (cells g') g' (kji_traversal g' ! p)) =
          (if active (cell_at (cells g') g' (kji_traversal g' ! p))
           then int (length (filter (\<lambda>ijk. active (cell_at (cells g') g' ijk))
                                   (take p (kji_traversal g'))))
           else - 1)) \<and>
     length imap = length (cells g') \<and>
     (\<forall>h<length (cells g').
        imap ! h = (if active (cells g' ! h) then active_index (cells g' ! h) else - 1)) \<and>
     int (length invm) = total_active g' \<and>
     (\<forall>h<length (cells g'). active (cells g' ! h) \<longrightarrow> invm ! nat (imap ! h) = int h) \<and>
     (\<forall>a<length invm. \<exists>h<length (cells g').
        active (cells g' ! h) \<and> invm ! a = int h \<and> imap ! h = int a) \<and>
     total_active g' = int (length (filter active (cells g')))"
proof -
  let ?cs = "cells g"
  let ?n = "length ?cs"
  let ?cs' = "ranked_cells ?cs ?n"
  from update_index_result[OF ok, of fill1 fill2] obtain imap invm where
    res: "ecl_grid_update_index fill1 fill2 g
            = Inr (g\<lparr>cells := ?cs', total_active := active_rank ?cs ?n,
                     index_map := Some imap, inv_index_map := Some invm\<rparr>)"
    and inv: "realloc_inv ?cs ?n (imap, invm)"
    by blast
  let ?g' = "g\<lparr>cells := ?cs', total_active := active_rank ?cs ?n,
                index_map := Some imap, inv_index_map := Some invm\<rparr>"
  have li: "length imap = ?n" and lv: "int (length invm) = active_rank ?cs ?n"
    and I3: "\<forall>h<?n. imap ! h = (if active (?cs ! h) then active_rank ?cs h else - 1)"
    and I4: "\<forall>h<?n. active (?cs ! h) \<longrightarrow> invm ! nat (active_rank ?cs h) = int h"
    and I5: "\<forall>a. int a < active_rank ?cs ?n \<longrightarrow>
             (\<exists>h<?n. active (?cs ! h) \<and> active_rank ?cs h = int a \<and> invm ! a = int h)"
    using inv by (simp_all add: realloc_inv_def)
  have ok': "grid_dims_ok ?g'" using ok by (simp add: grid_dims_ok_def)
  have len': "length (cells ?g') = ?n" by simp
  have act: "\<And>h. h < ?n \<Longrightarrow> active (?cs' ! h) = active (?cs ! h)"
    by (simp add: nth_ranked_cells)
  have aidx: "\<And>h. h < ?n \<Longrightarrow>
      active_index (?cs' ! h) = (if active (?cs ! h) then active_rank ?cs h else - 1)"
    by (simp add: nth_ranked_cells)
  have mact: "map active ?cs' = map active ?cs" by (rule map_active_ranked)
  have trav_cells: "map (cell_at ?cs' ?g') (kji_traversal ?g') = ?cs'"
    by (rule traversal_cells[OF ok']) simp
  have trav_len: "length (kji_traversal ?g') = ?n"
    using arg_cong[OF trav_cells, of length] by simp
  have trav_nth: "\<And>p. p < ?n \<Longrightarrow> cell_at ?cs' ?g' (kji_traversal ?g' ! p) = ?cs' ! p"
    using trav_cells trav_len by (metis nth_map)
  have trav_rank: "\<And>p. int (length (filter (\<lambda>ijk. active (cell_at ?cs' ?g' ijk))
                                   (take p (kji_traversal ?g')))) = active_rank ?cs p"
    using traversal_rank[OF ok', of ?cs'] active_rank_cong[OF mact] by simp
  have c1: "?g' = g\<lparr>cells := cells ?g', total_active := total_active ?g',
             index_map := Some imap, inv_index_map := Some invm\<rparr>" by simp
  have c2: "map active (cells ?g') = map active ?cs" using mact by simp
  have c3: "map (\<lambda>(i, j, k). ecl_grid_get_global_index_unchecked ?g' i j k) (kji_traversal ?g')
       = map int [0..<length (cells ?g')]"
    by (rule traversal_global_index[OF ok'])
  have c4: "\<forall>p<length (kji_traversal ?g').
        active_index (cell_at (cells ?g') ?g' (kji_traversal ?g' ! p)) =
          (if active (cell_at (cells ?g') ?g' (kji_traversal ?g' ! p))
           then int (length (filter (\<lambda>ijk. active (cell_at (cells ?g') ?g' ijk))
                                   (take p (kji_traversal ?g'))))
           else - 1)"
  proof (intro allI impI)
    fix p assume "p < length (kji_traversal ?g')"
    then have p: "p < ?n" using trav_len by simp
    have "cell_at (cells ?g') ?g' (kji_traversal ?g' ! p) = ?cs' ! p"
      using trav_nth[OF p] by simp
    moreover have "int (length (filter (\<lambda>ijk. active (cell_at (cells ?g') ?g' ijk))
                                   (take p (kji_traversal ?g')))) = active_rank ?cs p"
      using trav_rank[of p] by simp
    ultimately show "active_index (cell_at (cells ?g') ?g' (kji_traversal ?g' ! p)) =
          (if active (cell_at (cells ?g') ?g' (kji_traversal ?g' ! p))
           then int (length (filter (\<lambda>ijk. active (cell_at (cells ?g') ?g' ijk))
                                   (take p (kji_traversal ?g'))))
           else - 1)"
      using aidx[OF p] act[OF p] by simp
  qed
  have c5: "length imap = length (cells ?g')" using li by simp
  have c6: "\<forall>h<length (cells ?g').
        imap ! h = (if active (cells ?g' ! h) then active_index (cells ?g' ! h) else - 1)"
    using I3 act aidx by simp
  have c7: "int (length invm) = total_active ?g'" using lv by simp
  have c8: "\<forall>h<length (cells ?g'). active (cells ?g' ! h) \<longrightarrow> invm ! nat (imap ! h) = int h"
    using I3 I4 act by simp
  have c9: "\<forall>a<length invm. \<exists>h<length (cells ?g').
        active (cells ?g' ! h) \<and> invm ! a = int h \<and> imap ! h = int a"
  proof (intro allI impI)
    fix a assume "a < length invm"
    then have "int a < active_rank ?cs ?n" using lv by linarith
    then obtain h where h: "h < ?n" "active (?cs ! h)" "active_rank ?cs h = int a" "invm ! a = int h"
      using I5 by blast
    then show "\<exists>h<length (cells ?g'). active (cells ?g' ! h) \<and> invm ! a = int h \<and> imap ! h = int a"
      using I3 act by (intro exI[of _ h]) simp
  qed
  have c10: "total_active ?g' = int (length (filter active (cells ?g')))"
    using active_rank_cong[OF mact, of ?n] by (simp add: active_rank_def)
  show ?thesis
    apply (rule exI[of _ ?g'])
    apply (rule exI[of _ imap])
    apply (rule exI[of _ invm])
    apply (intro conjI)
    apply (rule res)
    apply (rule c1)
    apply (rule c2)
    apply (rule c3)
    apply (rule c4)
    apply (rule c5)
    apply (rule c6)
    apply (rule c7)
    apply (rule c8)
    apply (rule c9)
    apply (rule c10)
    done
qed

theorem update_index_dense_rank_witness:
  "grid_dims_ok (grid_of_cells 2 1 1 [cube_cell 0 0 0 False, cube_cell 1 0 0 True]) \<and>
   (\<exists>g' imap invm. ecl_grid_update_index (\<lambda>_. 0) (\<lambda>_. 0)
            (grid_of_cells 2 1 1 [cube_cell 0 0 0 False, cube_cell 1 0 0 True]) = Inr g' \<and>
         index_map g' = Some imap \<and> inv_index_map g' = Some invm \<and>
         total_active g' = 1 \<and> length imap = 2 \<and> length invm = 1 \<and>
         imap ! 0 = - 1 \<and> imap ! 1 = 0 \<and> invm ! 0 = 1)"
proof -
  let ?g = "grid_of_cells 2 1 1 [cube_cell 0 0 0 False, cube_cell 1 0 0 True]"
  have cs: "map active (cells ?g) = [False, True]"
    by (simp add: grid_of_cells_def cube_cell_def)
  have ok: "grid_dims_ok ?g"
    by (simp add: grid_dims_ok_def grid_of_cells_def ecl_grid_alloc_empty_def)
  from update_index_dense_rank[OF ok, of "\<lambda>_. 0" "\<lambda>_. 0"] obtain g' imap invm where
    r: "ecl_grid_update_index (\<lambda>_. 0) (\<lambda>_. 0) ?g = Inr g'"
    and eq: "g' = ?g\<lparr>cells := cells g', total_active := total_active g',
             index_map := Some imap, inv_index_map := Some invm\<rparr>"
    and act: "map active (cells g') = map active (cells ?g)"
    and li: "length imap = length (cells g')"
    and iv: "\<forall>h<length (cells g').
        imap ! h = (if active (cells g' ! h) then active_index (cells g' ! h) else - 1)"
    and lv: "int (length invm) = total_active g'"
    and inv2: "\<forall>a<length invm. \<exists>h<length (cells g').
        active (cells g' ! h) \<and> invm ! a = int h \<and> imap ! h = int a"
    and ta: "total_active g' = int (length (filter active (cells g')))"
    by blast
  have im: "index_map g' = Some imap" "inv_index_map g' = Some invm"
    by (subst eq, simp)+
  have act': "map active (cells g') = [False, True]" using act cs by simp
  have len: "length (cells g') = 2" using arg_cong[OF act', of length] by simp
  have a0: "\<not> active (cells g' ! 0)" and a1: "active (cells g' ! 1)"
    using arg_cong[OF act', of "\<lambda>xs. xs ! 0"] arg_cong[OF act', of "\<lambda>xs. xs ! 1"] len
    by simp_all
  have "length (filter active (cells g')) = length (filter id (map active (cells g')))"
    by (simp add: filter_map comp_def)
  then have t1: "total_active g' = 1" using ta act' by simp
  have l1: "length invm = 1" using lv t1 by simp
  have i0: "imap ! 0 = - 1" using iv[rule_format, of 0] len a0 by simp
  obtain h where h: "h < 2" "active (cells g' ! h)" "invm ! 0 = int h" "imap ! h = 0"
    using inv2[rule_format, of 0] l1 len by auto
  have "h = 1" using h(1,2) a0 by (cases "h = 0") auto
  then have "imap ! 1 = 0" "invm ! 0 = 1" using h by simp_all
  then show ?thesis using ok r im t1 li len l1 i0 by auto
qed

subsection \<open>Rounding to double precision\<close>

lemma bitlen_eqI:
  fixes n :: int
  assumes "2 ^ k \<le> n" "n < 2 ^ Suc k"
  shows "bitlen n = int k + 1"
proof -
  have a: "bitlen n \<le> int k + 1"
    using assms(2) by (simp add: bitlen_le_iff_power nat_add_distrib)
  have "\<not> bitlen n \<le> int k"
    using assms(1) by (simp add: bitlen_le_iff_power not_less)
  then show ?thesis using a by linarith
qed

lemma double_exponent_eq:
  assumes lo: "2 powi j \<le> \<bar>x\<bar>" and hi: "\<bar>x\<bar> < 2 powi (j + 1)" and j: "- 1022 \<le> j"
  shows "double_exponent x = j - 52"
proof -
  define k where "k = nat (j - double_emin)"
  have k: "int k = j - double_emin" using j by (simp add: k_def double_emin_def)
  let ?s = "(2::real) powi (- double_emin)"
  have s0: "0 \<le> ?s" "0 < ?s" by simp_all
  have "(2::real) powi (j + (- double_emin)) = 2 powi j * ?s"
    by (rule power_int_add) simp
  then have "(2::real) powi j * ?s = 2 powi (j - double_emin)"
    by (simp only: diff_conv_add_uminus)
  then have p1: "(2::real) powi j * ?s = 2 ^ k"
    by (simp only: flip: k power_int_of_nat)
  have "(2::real) powi (j + 1) = 2 powi j * 2" by (simp add: power_int_add)
  then have p2: "(2::real) powi (j + 1) * ?s = 2 ^ Suc k"
    using p1 by (simp only: power_Suc)
  let ?n = "\<lfloor>\<bar>x\<bar> * ?s\<rfloor>"
  have "(2::real) ^ k \<le> \<bar>x\<bar> * ?s"
    using mult_right_mono[OF lo s0(1)] by (simp only: p1)
  then have "of_int (2 ^ k) \<le> \<bar>x\<bar> * ?s" by simp
  then have n1: "2 ^ k \<le> ?n" by (simp only: le_floor_iff)
  have "\<bar>x\<bar> * ?s < 2 ^ Suc k"
    using mult_strict_right_mono[OF hi s0(2)] by (simp only: p2)
  then have "\<bar>x\<bar> * ?s < of_int (2 ^ Suc k)" by simp
  then have n2: "?n < 2 ^ Suc k" by (simp only: floor_less_iff)
  have b: "bitlen ?n = int k + 1" by (rule bitlen_eqI[OF n1 n2])
  have "double_exponent x = max (int k + 1 - 53 + double_emin) double_emin"
    unfolding double_exponent_def b ..
  also have "int k + 1 - 53 + double_emin = j - 52" using k by linarith
  also have "max (j - 52) double_emin = j - 52" using j by (simp add: double_emin_def)
  finally show ?thesis .
qed

lemma to_double_eqI:
  assumes "2 powi j \<le> \<bar>x\<bar>" "\<bar>x\<bar> < 2 powi (j + 1)" "- 1022 \<le> j"
    and "round_half_even (x / 2 powi (j - 52)) = m"
  shows "to_double x = of_int m * 2 powi (j - 52)"
  using double_exponent_eq[OF assms(1-3)] assms(4) by (simp add: to_double_def)

lemma to_double_zero [simp]: "to_double 0 = 0"
  by (simp add: to_double_def round_half_even_def)

lemma round_half_even_ge_floor: "\<lfloor>y\<rfloor> \<le> round_half_even y"
  by (simp add: round_half_even_def Let_def)

lemma binade_exists:
  fixes x :: real
  assumes "0 < x"
  shows "\<exists>j. 2 powi j \<le> x \<and> x < 2 powi (j + 1)"
proof -
  let ?j = "\<lfloor>log 2 x\<rfloor>"
  have "of_int ?j \<le> log 2 x" by simp
  then have "2 powr of_int ?j \<le> 2 powr log 2 x" by simp
  moreover have "2 powr of_int ?j = (2::real) powi ?j" by (rule powr_real_of_int') simp_all
  ultimately have a: "2 powi ?j \<le> x" using assms by simp
  have "log 2 x < of_int (?j + 1)" by linarith
  then have "2 powr log 2 x < 2 powr of_int (?j + 1)" by (simp del: of_int_add)
  moreover have "2 powr of_int (?j + 1) = (2::real) powi (?j + 1)"
    by (rule powr_real_of_int') simp_all
  ultimately have b: "x < 2 powi (?j + 1)" using assms by (simp del: of_int_add)
  show ?thesis using a b by blast
qed

lemma to_double_ge_pow:
  assumes lo: "2 powi j \<le> x" and j: "- 1022 \<le> j"
  shows "2 powi j \<le> to_double x"
proof -
  have "(0::real) < 2 powi j" by simp
  then have x: "0 < x" using lo by linarith
  obtain j' where j': "2 powi j' \<le> x" "x < 2 powi (j' + 1)" using binade_exists[OF x] by blast
  have jj: "j \<le> j'"
  proof (rule ccontr)
    assume "\<not> j \<le> j'"
    then have "j' + 1 \<le> j" by simp
    then have "(2::real) powi (j' + 1) \<le> 2 powi j" by (intro power_int_increasing) simp_all
    then show False using j'(2) lo by linarith
  qed
  have e: "double_exponent x = j' - 52"
    using double_exponent_eq[of j' x] j' x jj j by simp
  have "x / 2 powi (j' - 52) \<ge> 2 powi j' / 2 powi (j' - 52)"
    using j'(1) by (intro divide_right_mono) simp_all
  moreover have "(2::real) powi j' / 2 powi (j' - 52) = 2 ^ 52"
    by (simp add: power_int_diff)
  ultimately have "of_int (2 ^ 52) \<le> x / 2 powi (j' - 52)" by simp
  then have "2 ^ 52 \<le> \<lfloor>x / 2 powi (j' - 52)\<rfloor>" by (simp only: le_floor_iff)
  then have "2 ^ 52 \<le> round_half_even (x / 2 powi (j' - 52))"
    using round_half_even_ge_floor[of "x / 2 powi (j' - 52)"] by linarith
  then have "(2::real) ^ 52 \<le> of_int (round_half_even (x / 2 powi (j' - 52)))"
    by (metis of_int_le_iff of_int_numeral of_int_power)
  then have "2 ^ 52 * 2 powi (j' - 52) \<le> to_double x"
    unfolding to_double_def e by (intro mult_right_mono) simp_all
  moreover have "(2::real) ^ 52 * 2 powi (j' - 52) = 2 powi j'"
    by (simp add: power_int_diff)
  moreover have "(2::real) powi j \<le> 2 powi j'" using jj by (intro power_int_increasing) simp_all
  ultimately show ?thesis by linarith
qed

text \<open>
  The double nearest to \<open>1 / 10\<close>, and two ties: the first goes down and the second up,
  each to the even mantissa.
\<close>

lemma to_double_tenth: "to_double (1 / 10) = 3602879701896397 / 2 ^ 55"
  using to_double_eqI[of "- 4" "1 / 10" 7205759403792794]
  by (simp add: round_half_even_def power_int_minus Let_def)

lemma to_double_ties:
  "to_double (1 + 1 / 2 ^ 53) = 1"
  "to_double (1 + 3 / 2 ^ 53) = 1 + 1 / 2 ^ 51"
  using to_double_eqI[of 0 "1 + 1 / 2 ^ 53" 4503599627370496]
    to_double_eqI[of 0 "1 + 3 / 2 ^ 53" 4503599627370498]
  by (simp_all add: round_half_even_def power_int_minus Let_def)

lemma to_double_twelfth: "to_double (1 / 12) = 6004799503160661 / 2 ^ 56"
  using to_double_eqI[of "- 4" "1 / 12" 6004799503160661]
  by (simp add: round_half_even_def power_int_minus Let_def)

subsection \<open>Cell volume\<close>

lemma volume_loop_unfold:
  "volume_loop tv cell 0 0 = 
     to_double (to_double (
     to_double (to_double (
     to_double (to_double (
     to_double (to_double (
     to_double (to_double (
     to_double (to_double (
     to_double (to_double (
     to_double (to_double (
     to_double (to_double (
     to_double (to_double (
     to_double (to_double (
     to_double (to_double (0 + tv (ecl_cell_init_tetrahedron cell 0 0)) + tv (ecl_cell_init_tetrahedron cell 1 0)) + tv (ecl_cell_init_tetrahedron cell 0 1)) + tv (ecl_cell_init_tetrahedron cell 1 1)) + tv (ecl_cell_init_tetrahedron cell 0 2)) + tv (ecl_cell_init_tetrahedron cell 1 2)) + tv (ecl_cell_init_tetrahedron cell 0 3)) + tv (ecl_cell_init_tetrahedron cell 1 3)) + tv (ecl_cell_init_tetrahedron cell 0 4)) + tv (ecl_cell_init_tetrahedron cell 1 4)) + tv (ecl_cell_init_tetrahedron cell 0 5)) + tv (ecl_cell_init_tetrahedron cell 1 5)) + tv (ecl_cell_init_tetrahedron cell 0 6)) + tv (ecl_cell_init_tetrahedron cell 1 6)) + tv (ecl_cell_init_tetrahedron cell 0 7)) + tv (ecl_cell_init_tetrahedron cell 1 7)) + tv (ecl_cell_init_tetrahedron cell 0 8)) + tv (ecl_cell_init_tetrahedron cell 1 8)) + tv (ecl_cell_init_tetrahedron cell 0 9)) + tv (ecl_cell_init_tetrahedron cell 1 9)) + tv (ecl_cell_init_tetrahedron cell 0 10)) + tv (ecl_cell_init_tetrahedron cell 1 10)) + tv (ecl_cell_init_tetrahedron cell 0 11)) + tv (ecl_cell_init_tetrahedron cell 1 11))"
  by (simp add: volume_loop.simps eval_nat_numeral)

lemma cube_sum_1: "to_double (6004799503160661 / 72057594037927936) = 6004799503160661 / 72057594037927936"
  using to_double_eqI[of "- 4" "6004799503160661 / 72057594037927936" 6004799503160661]
  by (simp add: round_half_even_def power_int_minus Let_def)

lemma cube_sum_2: "to_double (6004799503160661 / 36028797018963968) = 6004799503160661 / 36028797018963968"
  using to_double_eqI[of "- 3" "6004799503160661 / 36028797018963968" 6004799503160661]
  by (simp add: round_half_even_def power_int_minus Let_def)

lemma cube_sum_3: "to_double (18014398509481983 / 72057594037927936) = 1 / 4"
  using to_double_eqI[of "- 3" "18014398509481983 / 72057594037927936" 9007199254740992]
  by (simp add: round_half_even_def power_int_minus Let_def)

lemma cube_sum_4: "to_double (24019198012642645 / 72057594037927936) = 6004799503160661 / 18014398509481984"
  using to_double_eqI[of "- 2" "24019198012642645 / 72057594037927936" 6004799503160661]
  by (simp add: round_half_even_def power_int_minus Let_def)

lemma cube_sum_5: "to_double (30023997515803305 / 72057594037927936) = 3752999689475413 / 9007199254740992"
  using to_double_eqI[of "- 2" "30023997515803305 / 72057594037927936" 7505999378950826]
  by (simp add: round_half_even_def power_int_minus Let_def)

lemma cube_sum_6: "to_double (36028797018963965 / 72057594037927936) = 9007199254740991 / 18014398509481984"
  using to_double_eqI[of "- 2" "36028797018963965 / 72057594037927936" 9007199254740991]
  by (simp add: round_half_even_def power_int_minus Let_def)

lemma cube_sum_7: "to_double (42033596522124625 / 72057594037927936) = 2627099782632789 / 4503599627370496"
  using to_double_eqI[of "- 1" "42033596522124625 / 72057594037927936" 5254199565265578]
  by (simp add: round_half_even_def power_int_minus Let_def)

lemma cube_sum_8: "to_double (48038396025285285 / 72057594037927936) = 6004799503160661 / 9007199254740992"
  using to_double_eqI[of "- 1" "48038396025285285 / 72057594037927936" 6004799503160661]
  by (simp add: round_half_even_def power_int_minus Let_def)

lemma cube_sum_9: "to_double (54043195528445949 / 72057594037927936) = 3 / 4"
  using to_double_eqI[of "- 1" "54043195528445949 / 72057594037927936" 6755399441055744]
  by (simp add: round_half_even_def power_int_minus Let_def)

lemma cube_sum_10: "to_double (60047995031606613 / 72057594037927936) = 7505999378950827 / 9007199254740992"
  using to_double_eqI[of "- 1" "60047995031606613 / 72057594037927936" 7505999378950827]
  by (simp add: round_half_even_def power_int_minus Let_def)

lemma cube_sum_11: "to_double (66052794534767277 / 72057594037927936) = 4128299658422955 / 4503599627370496"
  using to_double_eqI[of "- 1" "66052794534767277 / 72057594037927936" 8256599316845910]
  by (simp add: round_half_even_def power_int_minus Let_def)

lemma cube_sum_12: "to_double (72057594037927941 / 72057594037927936) = 1"
  using to_double_eqI[of "0" "72057594037927941 / 72057594037927936" 4503599627370496]
  by (simp add: round_half_even_def power_int_minus Let_def)

lemma cube_sum_13: "to_double (78062393541088597 / 72057594037927936) = 4878899596318037 / 4503599627370496"
  using to_double_eqI[of "0" "78062393541088597 / 72057594037927936" 4878899596318037]
  by (simp add: round_half_even_def power_int_minus Let_def)

lemma cube_sum_14: "to_double (84067193044249253 / 72057594037927936) = 2627099782632789 / 2251799813685248"
  using to_double_eqI[of "0" "84067193044249253 / 72057594037927936" 5254199565265578]
  by (simp add: round_half_even_def power_int_minus Let_def)

lemma cube_sum_15: "to_double (90071992547409909 / 72057594037927936) = 5629499534213119 / 4503599627370496"
  using to_double_eqI[of "0" "90071992547409909 / 72057594037927936" 5629499534213119]
  by (simp add: round_half_even_def power_int_minus Let_def)

lemma cube_sum_16: "to_double (96076792050570565 / 72057594037927936) = 1501199875790165 / 1125899906842624"
  using to_double_eqI[of "0" "96076792050570565 / 72057594037927936" 6004799503160660]
  by (simp add: round_half_even_def power_int_minus Let_def)

lemma cube_sum_17: "to_double (102081591553731221 / 72057594037927936) = 6380099472108201 / 4503599627370496"
  using to_double_eqI[of "0" "102081591553731221 / 72057594037927936" 6380099472108201]
  by (simp add: round_half_even_def power_int_minus Let_def)

lemma cube_sum_18: "to_double (108086391056891877 / 72057594037927936) = 3377699720527871 / 2251799813685248"
  using to_double_eqI[of "0" "108086391056891877 / 72057594037927936" 6755399441055742]
  by (simp add: round_half_even_def power_int_minus Let_def)

lemma cube_sum_19: "to_double (114091190560052533 / 72057594037927936) = 7130699410003283 / 4503599627370496"
  using to_double_eqI[of "0" "114091190560052533 / 72057594037927936" 7130699410003283]
  by (simp add: round_half_even_def power_int_minus Let_def)

lemma cube_sum_20: "to_double (120095990063213189 / 72057594037927936) = 938249922368853 / 562949953421312"
  using to_double_eqI[of "0" "120095990063213189 / 72057594037927936" 7505999378950824]
  by (simp add: round_half_even_def power_int_minus Let_def)

lemma cube_sum_21: "to_double (126100789566373845 / 72057594037927936) = 7881299347898365 / 4503599627370496"
  using to_double_eqI[of "0" "126100789566373845 / 72057594037927936" 7881299347898365]
  by (simp add: round_half_even_def power_int_minus Let_def)

lemma cube_sum_22: "to_double (132105589069534501 / 72057594037927936) = 4128299658422953 / 2251799813685248"
  using to_double_eqI[of "0" "132105589069534501 / 72057594037927936" 8256599316845906]
  by (simp add: round_half_even_def power_int_minus Let_def)

lemma cube_sum_23: "to_double (138110388572695157 / 72057594037927936) = 8631899285793447 / 4503599627370496"
  using to_double_eqI[of "0" "138110388572695157 / 72057594037927936" 8631899285793447]
  by (simp add: round_half_even_def power_int_minus Let_def)

lemma cube_sum_24: "to_double (144115188075855813 / 72057594037927936) = 2251799813685247 / 1125899906842624"
  using to_double_eqI[of "0" "144115188075855813 / 72057594037927936" 9007199254740988]
  by (simp add: round_half_even_def power_int_minus Let_def)

lemma cube_sum_half: "to_double (2251799813685247 / 2251799813685248) = 2251799813685247 / 2251799813685248"
  using to_double_eqI[of "- 1" "2251799813685247 / 2251799813685248" 9007199254740988]
  by (simp add: round_half_even_def power_int_minus Let_def)

lemmas cube_sum_steps =
  cube_sum_1
  cube_sum_2
  cube_sum_3
  cube_sum_4
  cube_sum_5
  cube_sum_6
  cube_sum_7
  cube_sum_8
  cube_sum_9
  cube_sum_10
  cube_sum_11
  cube_sum_12
  cube_sum_13
  cube_sum_14
  cube_sum_15
  cube_sum_16
  cube_sum_17
  cube_sum_18
  cube_sum_19
  cube_sum_20
  cube_sum_21
  cube_sum_22
  cube_sum_23
  cube_sum_24
  cube_sum_half


lemma to_double_twelfth_nf: "to_double (1 / 12) = 6004799503160661 / 72057594037927936"
  using to_double_twelfth by simp

lemma cube_double_volume:
  "ecl_cell_get_volume tetrahedron_volume_double (cube_cell x0 y0 z0 act) = 1 - 1 / 2 ^ 51"
  unfolding ecl_cell_get_volume_def volume_loop_unfold
  by (simp add: ecl_cell_init_tetrahedron_def tetrahedron_permutations_def corner_def
        cube_cell_def tetrahedron_volume_def edge_det_def tetrahedron_set_shared_def
        point_set_def Let_def tetrahedron_volume_double_def to_double_twelfth_nf cube_sum_steps)

lemma tetrahedron_volume_nonneg: "0 \<le> tetrahedron_volume tet"
  by (simp add: tetrahedron_volume_def)

lemma volume_loop_ge:
  assumes "\<And>t. 0 \<le> tv t" "2 powi j \<le> v" "- 1022 \<le> j"
  shows "2 powi j \<le> volume_loop tv cell itet v"
  using assms(1,2)
proof (induction tv cell itet v rule: volume_loop.induct)
  case (1 tv cell itet volume)
  show ?case
  proof (cases "itet < 12")
    case False
    then show ?thesis using "1.prems"(2) by (subst volume_loop.simps) simp
  next
    case True
    have a: "2 powi j \<le> volume + tv (ecl_cell_init_tetrahedron cell 0 itet)"
      using "1.prems"(2) "1.prems"(1)[of "ecl_cell_init_tetrahedron cell 0 itet"] by linarith
    have b: "2 powi j \<le> to_double (volume + tv (ecl_cell_init_tetrahedron cell 0 itet))
                + tv (ecl_cell_init_tetrahedron cell 1 itet)"
      using to_double_ge_pow[OF a assms(3)] "1.prems"(1)[of "ecl_cell_init_tetrahedron cell 1 itet"]
      by linarith
    have c: "2 powi j \<le> to_double (to_double (volume + tv (ecl_cell_init_tetrahedron cell 0 itet))
                + tv (ecl_cell_init_tetrahedron cell 1 itet))"
      by (rule to_double_ge_pow[OF b assms(3)])
    show ?thesis
      using "1.IH"[OF True "1.prems"(1) c] True by (subst volume_loop.simps) simp
  qed
qed

lemma cube_tet_volume_first:
  "tetrahedron_volume (ecl_cell_init_tetrahedron (cube_cell x0 y0 z0 act) 0 0) = 1 / 12"
  by (simp add: ecl_cell_init_tetrahedron_def tetrahedron_permutations_def corner_def
        cube_cell_def tetrahedron_volume_def edge_det_def tetrahedron_set_shared_def
        point_set_def Let_def)

lemma cube_volume_pos:
  "0 < ecl_cell_get_volume tetrahedron_volume (cube_cell x0 y0 z0 act)"
proof -
  let ?c = "cube_cell x0 y0 z0 act"
  let ?v1 = "to_double (to_double (0 + tetrahedron_volume (ecl_cell_init_tetrahedron ?c 0 0))
               + tetrahedron_volume (ecl_cell_init_tetrahedron ?c 1 0))"
  have s: "volume_loop tetrahedron_volume ?c 0 0 = volume_loop tetrahedron_volume ?c 1 ?v1"
    by (subst volume_loop.simps) simp
  have "(2::real) powi (- 4) \<le> 0 + tetrahedron_volume (ecl_cell_init_tetrahedron ?c 0 0)"
    by (simp add: cube_tet_volume_first power_int_minus)
  then have "2 powi (- 4) \<le> to_double (0 + tetrahedron_volume (ecl_cell_init_tetrahedron ?c 0 0))"
    by (rule to_double_ge_pow) simp
  then have "2 powi (- 4) \<le> to_double (0 + tetrahedron_volume (ecl_cell_init_tetrahedron ?c 0 0))
               + tetrahedron_volume (ecl_cell_init_tetrahedron ?c 1 0)"
    using tetrahedron_volume_nonneg[of "ecl_cell_init_tetrahedron ?c 1 0"] by linarith
  then have "2 powi (- 4) \<le> ?v1" by (rule to_double_ge_pow) simp
  then have "2 powi (- 4) \<le> volume_loop tetrahedron_volume ?c 1 ?v1"
    by (intro volume_loop_ge tetrahedron_volume_nonneg) simp_all
  then have "2 powi (- 4) \<le> volume_loop tetrahedron_volume ?c 0 0" by (simp only: s)
  then have "2 powi (- 5) \<le> volume_loop tetrahedron_volume ?c 0 0 * 0.5"
    by (simp add: power_int_minus)
  then have "2 powi (- 5) \<le> to_double (volume_loop tetrahedron_volume ?c 0 0 * 0.5)"
    by (rule to_double_ge_pow) simp
  moreover have "(0::real) < 2 powi (- 5)" by simp
  ultimately show ?thesis unfolding ecl_cell_get_volume_def by linarith
qed

text \<open>
  Claim C8, as amended.  The cell volume is half the sum, accumulated in double precision,
  of the volumes of twelve tetrahedra of the first corner scheme and twelve of the second,
  taken in turn, every one of them with the cell centre as its first point and three
  corners of the cell as the others.  For an axis-aligned unit cube with the centre at its
  centre, where the volume of each tetrahedron is the double nearest to its geometric
  volume, the result is \<open>1 - 1 / 2 ^ 51\<close>: it is \<open>1\<close> within the tolerance of the
  floating-point sum.
\<close>

theorem cell_volume_two_schemes:
  "ecl_cell_get_volume tv cell =
     (let tet = (\<lambda>(a, b, c). \<lparr>tp0 = center cell, tp1 = corner_list cell ! a,
                                 tp2 = corner_list cell ! b, tp3 = corner_list cell ! c\<rparr>)
      in to_double
           (foldl (\<lambda>volume (first, second).
                     to_double (to_double (volume + tv (tet first)) + tv (tet second))) 0
              [((0, 2, 6), (0, 2, 4)),
            ((0, 4, 6), (2, 4, 6)),
            ((0, 4, 5), (0, 4, 1)),
            ((0, 1, 5), (4, 5, 1)),
            ((1, 3, 7), (1, 3, 5)),
            ((1, 5, 7), (3, 5, 7)),
            ((2, 3, 7), (2, 3, 6)),
            ((2, 6, 7), (3, 6, 7)),
            ((0, 1, 2), (0, 1, 3)),
            ((1, 2, 3), (0, 2, 3)),
            ((4, 5, 6), (4, 5, 7)),
            ((5, 6, 7), (4, 6, 7))] * 0.5)) \<and>
   ecl_cell_get_volume tetrahedron_volume_double (cube_cell x0 y0 z0 act) = 1 - 1 / 2 ^ 51 \<and>
   \<bar>ecl_cell_get_volume tetrahedron_volume_double (cube_cell x0 y0 z0 act) - 1\<bar> \<le> 1 / 2 ^ 51"
proof (intro conjI)
  show "ecl_cell_get_volume tv cell =
     (let tet = (\<lambda>(a, b, c). \<lparr>tp0 = center cell, tp1 = corner_list cell ! a,
                                 tp2 = corner_list cell ! b, tp3 = corner_list cell ! c\<rparr>)
      in to_double
           (foldl (\<lambda>volume (first, second).
                     to_double (to_double (volume + tv (tet first)) + tv (tet second))) 0
              [((0, 2, 6), (0, 2, 4)),
            ((0, 4, 6), (2, 4, 6)),
            ((0, 4, 5), (0, 4, 1)),
            ((0, 1, 5), (4, 5, 1)),
            ((1, 3, 7), (1, 3, 5)),
            ((1, 5, 7), (3, 5, 7)),
            ((2, 3, 7), (2, 3, 6)),
            ((2, 6, 7), (3, 6, 7)),
            ((0, 1, 2), (0, 1, 3)),
            ((1, 2, 3), (0, 2, 3)),
            ((4, 5, 6), (4, 5, 7)),
            ((5, 6, 7), (4, 6, 7))] * 0.5))"
    unfolding ecl_cell_get_volume_def volume_loop_unfold
    by (simp add: ecl_cell_init_tetrahedron_def tetrahedron_permutations_def corner_def
          tetrahedron_set_shared_def Let_def)
  show "ecl_cell_get_volume tetrahedron_volume_double (cube_cell x0 y0 z0 act) = 1 - 1 / 2 ^ 51"
    by (rule cube_double_volume)
  show "\<bar>ecl_cell_get_volume tetrahedron_volume_double (cube_cell x0 y0 z0 act) - 1\<bar> \<le> 1 / 2 ^ 51"
    unfolding cube_double_volume by simp
qed

text \<open>
  Claim C8 says that the volume of such a unit cube equals \<open>1\<close>.  The twenty-four
  rounded additions of the double nearest to \<open>1 / 12\<close> do not add up to \<open>1\<close>.
\<close>

theorem cell_volume_unit_cube_not_one:
  "ecl_cell_get_volume tetrahedron_volume_double (cube_cell 0 0 0 True) \<noteq> 1"
  unfolding cube_double_volume by simp

subsection \<open>Tainted and degenerate cells\<close>

text \<open>
  Claim C6.  For a cell with tainted geometry, the point-in-cell test returns false for every
  point, its own centre included, and the layer test returns false for every \<open>(x, y)\<close>
  and either layer.
\<close>

theorem tainted_cell_contains_nothing:
  assumes "tainted_geometry cell"
  shows "ecl_cell_contains_point tv tc cell p = Inr False \<and>
         ecl_cell_contains_point tv tc cell (center cell) = Inr False \<and>
         ecl_cell_layer_contains_xy cell lower_layer x y = False"
  using assms by (simp add: ecl_cell_contains_point_def ecl_cell_layer_contains_xy_def)

theorem tainted_cell_contains_nothing_witness:
  "tainted_geometry ((cube_cell 1 1 1 True)\<lparr>tainted_geometry := True\<rparr>) \<and>
   ecl_cell_contains_point tetrahedron_volume tetrahedron_contains
     ((cube_cell 1 1 1 True)\<lparr>tainted_geometry := True\<rparr>)
     (center ((cube_cell 1 1 1 True)\<lparr>tainted_geometry := True\<rparr>)) = Inr False \<and>
   ecl_cell_layer_contains_xy ((cube_cell 1 1 1 True)\<lparr>tainted_geometry := True\<rparr>) True (3 / 2) (3 / 2) = False"
  using tainted_cell_contains_nothing
    [of "(cube_cell 1 1 1 True)\<lparr>tainted_geometry := True\<rparr>" tetrahedron_volume tetrahedron_contains
        "center ((cube_cell 1 1 1 True)\<lparr>tainted_geometry := True\<rparr>)" True "3 / 2" "3 / 2"]
  by simp

text \<open>
  Claim C10.  For a cell that is not tainted and whose volume by the two schemes is not
  strictly positive, and a point inside its bounding box, the point-in-cell test returns
  neither true nor false: it aborts, and so does the test through the grid.  A cell with
  all corners at one point away from the origin is such a cell.
\<close>

theorem degenerate_cell_aborts:
  assumes "\<not> tainted_geometry cell"
    and "ecl_cell_min_z cell \<le> pz p" "pz p \<le> ecl_cell_max_z cell"
    and "ecl_cell_min_x cell \<le> px p" "px p \<le> ecl_cell_max_x cell"
    and "ecl_cell_min_y cell \<le> py p" "py p \<le> ecl_cell_max_y cell"
    and "\<not> ecl_cell_get_volume tv cell > 0"
    and "array_get (cells g) global_index = Inr cell"
    and "p = point_set x y z"
  shows "ecl_cell_contains_point tv tc cell p = Inl Abort \<and>
         ecl_grid_cell_contains_xyz1 tv tc g global_index x y z = Inl Abort"
  using assms
  by (simp add: ecl_cell_contains_point_def ecl_grid_cell_contains_xyz1_def Let_def)

lemma collapsed_volume: "ecl_cell_get_volume tetrahedron_volume (collapsed_cell x0 y0 z0) = 0"
  unfolding ecl_cell_get_volume_def volume_loop_unfold
  by (simp add: ecl_cell_init_tetrahedron_def tetrahedron_permutations_def corner_def
        collapsed_cell_def tetrahedron_volume_def edge_det_def tetrahedron_set_shared_def
        point_set_def Let_def eval_nat_numeral)

lemma collapsed_corner: "c < 8 \<Longrightarrow> corner (collapsed_cell x0 y0 z0) c = point_set x0 y0 z0"
  by (simp add: corner_def collapsed_cell_def)

theorem degenerate_cell_aborts_witness:
  "ecl_cell_taint_cell (collapsed_cell 1 1 1) = collapsed_cell 1 1 1 \<and>
   \<not> tainted_geometry (collapsed_cell 1 1 1) \<and>
   ecl_cell_get_volume tetrahedron_volume (collapsed_cell 1 1 1) = 0 \<and>
   ecl_cell_contains_point tetrahedron_volume tetrahedron_contains (collapsed_cell 1 1 1)
     (point_set 1 1 1) = Inl Abort \<and>
   ecl_grid_cell_contains_xyz1 tetrahedron_volume tetrahedron_contains
     (grid_of_cells 1 1 1 [collapsed_cell 1 1 1]) 0 1 1 1 = Inl Abort"
proof -
  let ?c = "collapsed_cell 1 1 1"
  have t: "\<not> tainted_geometry ?c" by (simp add: collapsed_cell_def)
  have v: "\<not> ecl_cell_get_volume tetrahedron_volume ?c > 0" by (simp add: collapsed_volume)
  have b: "ecl_cell_min_z ?c \<le> pz (point_set 1 1 1)" "pz (point_set 1 1 1) \<le> ecl_cell_max_z ?c"
    "ecl_cell_min_x ?c \<le> px (point_set 1 1 1)" "px (point_set 1 1 1) \<le> ecl_cell_max_x ?c"
    "ecl_cell_min_y ?c \<le> py (point_set 1 1 1)" "py (point_set 1 1 1) \<le> ecl_cell_max_y ?c"
    by (simp_all add: ecl_cell_min_z_def ecl_cell_max_z_def ecl_cell_min_x_def ecl_cell_max_x_def
          ecl_cell_min_y_def ecl_cell_max_y_def collapsed_corner min4_def max4_def min8_def max8_def
          min2_def max2_def point_set_def)
  have a: "array_get (cells (grid_of_cells 1 1 1 [?c])) 0 = Inr ?c"
    by (simp add: array_get_def grid_of_cells_def)
  have k: "ecl_cell_taint_cell ?c = ?c"
    by (simp add: ecl_cell_taint_cell_def taint_loop.simps collapsed_corner point_set_def eval_nat_numeral)
  show ?thesis
    using degenerate_cell_aborts[OF t b v a refl, of tetrahedron_contains] t k collapsed_volume[of 1 1 1]
    by simp
qed

subsection \<open>The tainted-cell scan\<close>

lemma corner_tainted_update [simp]:
  "corner (cell\<lparr>tainted_geometry := b\<rparr>) c = corner cell c"
  by (simp add: corner_def)

lemma exists_from_split:
  fixes c :: nat
  assumes "c < 8"
  shows "(\<exists>c'. c \<le> c' \<and> c' < 8 \<and> P c') \<longleftrightarrow> (P c \<or> (\<exists>c'. c + 1 \<le> c' \<and> c' < 8 \<and> P c'))"
proof
  assume "\<exists>c'. c \<le> c' \<and> c' < 8 \<and> P c'"
  then obtain c' where c': "c \<le> c'" "c' < 8" "P c'" by blast
  show "P c \<or> (\<exists>c'. c + 1 \<le> c' \<and> c' < 8 \<and> P c')"
  proof (cases "c' = c")
    case True
    then show ?thesis using c' by simp
  next
    case False
    then have "c + 1 \<le> c'" using c' by simp
    then show ?thesis using c' by blast
  qed
next
  assume "P c \<or> (\<exists>c'. c + 1 \<le> c' \<and> c' < 8 \<and> P c')"
  then show "\<exists>c'. c \<le> c' \<and> c' < 8 \<and> P c'"
  proof
    assume "P c"
    then show ?thesis using assms by blast
  next
    assume "\<exists>c'. c + 1 \<le> c' \<and> c' < 8 \<and> P c'"
    then obtain c' where "c + 1 \<le> c'" "c' < 8" "P c'" by blast
    then have "c \<le> c' \<and> c' < 8 \<and> P c'" by simp
    then show ?thesis by blast
  qed
qed

lemma taint_loop_result:
  "taint_loop c cell =
     cell\<lparr>tainted_geometry :=
            (tainted_geometry cell \<or>
             (\<exists>c'. c \<le> c' \<and> c' < 8 \<and> px (corner cell c') = 0 \<and> py (corner cell c') = 0))\<rparr>"
proof (induction c cell rule: taint_loop.induct)
  case (1 c cell)
  let ?P = "\<lambda>c'. px (corner cell c') = 0 \<and> py (corner cell c') = 0"
  show ?case
  proof (cases "c < 8")
    case False
    have e: "(\<exists>c'. c \<le> c' \<and> c' < 8 \<and> ?P c') = False"
      using False by auto
    have l: "taint_loop c cell = cell" using False by (subst taint_loop.simps) simp
    have "cell\<lparr>tainted_geometry := (tainted_geometry cell \<or> False)\<rparr> = cell" by simp
    then show ?thesis unfolding l e by simp
  next
    case True
    note sp = exists_from_split[OF True, of ?P]
    show ?thesis
    proof (cases "?P c")
      case hit: True
      have "taint_loop c cell = taint_loop (c + 1) (cell\<lparr>tainted_geometry := True\<rparr>)"
        using True hit by (subst taint_loop.simps) simp
      also have "\<dots> = cell\<lparr>tainted_geometry := True\<rparr>"
        using "1.IH"[OF True] hit by simp
      finally show ?thesis using hit sp by simp
    next
      case miss: False
      have "taint_loop c cell = taint_loop (c + 1) cell"
        using True miss by (subst taint_loop.simps) auto
      also have "\<dots> = cell\<lparr>tainted_geometry :=
            (tainted_geometry cell \<or> (\<exists>c'. c + 1 \<le> c' \<and> c' < 8 \<and> ?P c'))\<rparr>"
        using "1.IH"[OF True] miss by auto
      finally have r: "taint_loop c cell = cell\<lparr>tainted_geometry :=
            (tainted_geometry cell \<or> (\<exists>c'. c + 1 \<le> c' \<and> c' < 8 \<and> ?P c'))\<rparr>" .
      have m: "?P c = False" using miss by simp
      show ?thesis unfolding r sp m by simp
    qed
  qed
qed

lemma taint_cell_result:
  "ecl_cell_taint_cell cell =
     cell\<lparr>tainted_geometry :=
            (tainted_geometry cell \<or> (\<exists>c<8. px (corner cell c) = 0 \<and> py (corner cell c) = 0))\<rparr>"
  by (simp add: ecl_cell_taint_cell_def taint_loop_result)

lemma taint_cells_loop:
  assumes "int (length cs) = n"
  shows "loop_from 0 n taint_cells_body cs = Inr (map ecl_cell_taint_cell cs)"
proof -
  let ?P = "\<lambda>m t. t = map ecl_cell_taint_cell (take (nat m) cs) @ drop (nat m) cs"
  have "\<exists>s'. loop_from 0 n taint_cells_body cs = Inr s' \<and> ?P n s'"
  proof (rule loop_from_rule[where P = ?P])
    show "0 \<le> n" using assms by auto
    show "?P 0 cs" by simp
    fix m t assume m: "0 \<le> m" "m < n" and t: "?P m t"
    have lt: "nat m < length cs" using m assms by linarith
    have len: "length t = length cs" using t by simp
    have get: "array_get t m = Inr (cs ! nat m)"
      using lt m t len by (simp add: array_get_def nth_append)
    have suc: "nat (m + 1) = Suc (nat m)" using m by linarith
    have d: "drop (nat m) cs = cs ! nat m # drop (Suc (nat m)) cs"
      using lt by (simp add: Cons_nth_drop_Suc)
    have tk: "take (Suc (nat m)) cs = take (nat m) cs @ [cs ! nat m]"
      using lt by (simp add: take_Suc_conv_app_nth)
    have lm: "length (map ecl_cell_taint_cell (take (nat m) cs)) = nat m"
      using lt by simp
    have "t = map ecl_cell_taint_cell (take (nat m) cs) @ cs ! nat m # drop (Suc (nat m)) cs"
      using t d by simp
    then have "t[nat m := ecl_cell_taint_cell (cs ! nat m)]
                = map ecl_cell_taint_cell (take (nat m) cs) @
                  ecl_cell_taint_cell (cs ! nat m) # drop (Suc (nat m)) cs"
      using list_update_length[of "map ecl_cell_taint_cell (take (nat m) cs)"] lm by metis
    then have upd: "t[nat m := ecl_cell_taint_cell (cs ! nat m)]
                = map ecl_cell_taint_cell (take (nat (m + 1)) cs) @ drop (nat (m + 1)) cs"
      unfolding suc tk by simp
    show "\<exists>t'. taint_cells_body m t = Inr t' \<and> ?P (m + 1) t'"
      using m lt len upd by (simp add: taint_cells_body_def get array_set_def)
  qed
  then show ?thesis using assms by auto
qed

lemma alloc_empty_untainted:
  "\<forall>c\<in>set (cells (ecl_grid_alloc_empty self ep junk jt gg nx' ny' nz' nr)). \<not> tainted_geometry c"
  by (simp add: ecl_grid_alloc_empty_def ecl_cell_alloc_def)

text \<open>
  Claim C7.  On a grid whose cells are not yet marked, as they are after construction, the
  scan \<open>ecl_grid_taint_cells\<close> returns, and afterwards a cell is marked tainted if and
  only if one of its eight corners has \<open>x = 0\<close> and \<open>y = 0\<close>, whatever its \<open>z\<close>.
\<close>

theorem taint_cells_marks_origin_corners:
  assumes "int (length (cells g)) = size_grid g"
    and "\<forall>c\<in>set (cells g). \<not> tainted_geometry c"
  shows "\<exists>g'. ecl_grid_taint_cells g = Inr g' \<and>
           length (cells g') = length (cells g) \<and>
           (\<forall>h<length (cells g).
              tainted_geometry (cells g' ! h) \<longleftrightarrow>
                (\<exists>c<8. px (corner (cells g ! h) c) = 0 \<and> py (corner (cells g ! h) c) = 0))"
  using assms taint_cells_loop[OF assms(1)]
  by (simp add: ecl_grid_taint_cells_def taint_cell_result)

lemma cube_cell_origin_corner:
  "(\<exists>c<8. px (corner (cube_cell x0 y0 z0 act) c) = 0 \<and> py (corner (cube_cell x0 y0 z0 act) c) = 0)
   \<longleftrightarrow> (x0 = 0 \<or> x0 = - 1) \<and> (y0 = 0 \<or> y0 = - 1)"
  by (auto simp add: eval_nat_numeral Ex_less_Suc corner_def cube_cell_def point_set_def)

theorem taint_cells_marks_origin_corners_witness:
  "\<exists>g'. ecl_grid_taint_cells
           (grid_of_cells 3 1 1 [cube_cell 0 0 3 True, cube_cell 1 1 0 True, cube_cell 0 5 0 True]) = Inr g' \<and>
        tainted_geometry (cells g' ! 0) \<and> \<not> tainted_geometry (cells g' ! 1) \<and>
        \<not> tainted_geometry (cells g' ! 2)"
proof -
  let ?g = "grid_of_cells 3 1 1 [cube_cell 0 0 3 True, cube_cell 1 1 0 True, cube_cell 0 5 0 True]"
  have cs: "cells ?g = [cube_cell 0 0 3 True, cube_cell 1 1 0 True, cube_cell 0 5 0 True]"
    by (simp add: grid_of_cells_def)
  have a: "int (length (cells ?g)) = size_grid ?g"
    by (simp add: grid_of_cells_def ecl_grid_alloc_empty_def)
  have b: "\<forall>c\<in>set (cells ?g). \<not> tainted_geometry c"
    unfolding cs by (simp add: cube_cell_def)
  from taint_cells_marks_origin_corners[OF a b] obtain g' where
    g': "ecl_grid_taint_cells ?g = Inr g'"
    and t: "\<forall>h<length (cells ?g).
              tainted_geometry (cells g' ! h) \<longleftrightarrow>
                (\<exists>c<8. px (corner (cells ?g ! h) c) = 0 \<and> py (corner (cells ?g ! h) c) = 0)"
    by blast
  have "tainted_geometry (cells g' ! 0)" using t[rule_format, of 0] by (simp add: cs cube_cell_origin_corner)
  moreover have "\<not> tainted_geometry (cells g' ! 1)" using t[rule_format, of 1] by (simp add: cs cube_cell_origin_corner)
  moreover have "\<not> tainted_geometry (cells g' ! 2)" using t[rule_format, of 2] by (simp add: cs cube_cell_origin_corner)
  ultimately show ?thesis using g' by blast
qed

subsection \<open>Value-by-index lookup\<close>

lemma all_active_rank:
  assumes "active_rank cs (length cs) = int (length cs)" "h < length cs"
  shows "active (cs ! h)" and "active_rank cs h = int h"
proof -
  have "length (filter active cs) = length cs"
    using assms(1) by (simp add: active_rank_def)
  moreover have "length (filter active cs) + length (filter (\<lambda>c. \<not> active c) cs) = length cs"
    by (rule sum_length_filter_compl)
  ultimately have "filter (\<lambda>c. \<not> active c) cs = []" by simp
  then have all: "\<forall>c\<in>set cs. active c" by (simp add: filter_empty_conv)
  then show "active (cs ! h)" using assms(2) by simp
  have "\<forall>c\<in>set (take h cs). active c" using all by (meson in_set_takeD)
  then have "filter active (take h cs) = take h cs" by (simp add: filter_True)
  then show "active_rank cs h = int h" using assms(2) by (simp add: active_rank_def)
qed

text \<open>
  Claim C3.  On a grid whose index maps have been refreshed and for a keyword of a numeric
  type, \<open>ecl_grid_get_property\<close> looks the value up at the global index of \<open>(i, j, k)\<close>
  when the keyword has \<open>nx * ny * nz\<close> elements, at the active index when it has
  \<open>total_active\<close> elements, and aborts for every other number of elements.
\<close>

theorem get_property_addressing:
  assumes built: "grid_dims_ok g0" "ecl_grid_update_index fill1 fill2 g0 = Inr g"
    and numeric: "kw_type kw = ECL_FLOAT_TYPE \<or> kw_type kw = ECL_INT_TYPE \<or> kw_type kw = ECL_DOUBLE_TYPE"
  shows "(ecl_kw_get_size kw = nx g * ny g * nz g \<longrightarrow>
            ecl_grid_get_property iget g kw i j k =
              (case ecl_grid_get_global_index3 g i j k of
                 Inl e \<Rightarrow> Inl e
               | Inr global_index \<Rightarrow> iget kw global_index)) \<and>
         (ecl_kw_get_size kw = total_active g \<longrightarrow>
            ecl_grid_get_property iget g kw i j k =
              (case ecl_grid_get_active_index3 g i j k of
                 Inl e \<Rightarrow> Inl e
               | Inr act_index \<Rightarrow> if act_index \<ge> 0 then iget kw act_index else Inr (- 1))) \<and>
         (ecl_kw_get_size kw \<noteq> nx g * ny g * nz g \<and> ecl_kw_get_size kw \<noteq> total_active g \<longrightarrow>
            ecl_grid_get_property iget g kw i j k = Inl Abort)"
proof -
  let ?cs = "cells g0"
  let ?n = "length ?cs"
  from update_index_result[OF built(1), of fill1 fill2] built(2) obtain imap invm where
    g: "g = g0\<lparr>cells := ranked_cells ?cs ?n, total_active := active_rank ?cs ?n,
                index_map := Some imap, inv_index_map := Some invm\<rparr>"
    and inv: "realloc_inv ?cs ?n (imap, invm)"
    by auto
  have li: "length imap = ?n"
    and I3: "\<forall>h<?n. imap ! h = (if active (?cs ! h) then active_rank ?cs h else - 1)"
    using inv by (simp_all add: realloc_inv_def)
  have dims: "nx g = nx g0" "ny g = ny g0" "nz g = nz g0" "total_active g = active_rank ?cs ?n"
    "index_map g = Some imap"
    by (simp_all add: g)
  have n: "int ?n = nx g * ny g * nz g" using built(1) by (simp add: grid_dims_ok_def dims)
  have valid_nonneg: "0 \<le> gi" if "ecl_grid_get_global_index3 g i j k = Inr gi" for gi
  proof -
    have v: "0 \<le> i" "i < nx g" "0 \<le> j" "j < ny g" "0 \<le> k" "k < nz g"
      and gi: "gi = i + j * nx g + k * nx g * ny g"
      using that
      by (auto simp add: ecl_grid_get_global_index3_def ijk_valid_iff
            ecl_grid_get_global_index_unchecked_def split: if_splits)
    show ?thesis using global_index_bounds(1)[OF v] gi by simp
  qed
  have valid_lt: "gi < int ?n" if "ecl_grid_get_global_index3 g i j k = Inr gi" for gi
  proof -
    have v: "0 \<le> i" "i < nx g" "0 \<le> j" "j < ny g" "0 \<le> k" "k < nz g"
      and gi: "gi = i + j * nx g + k * nx g * ny g"
      using that
      by (auto simp add: ecl_grid_get_global_index3_def ijk_valid_iff
            ecl_grid_get_global_index_unchecked_def split: if_splits)
    show ?thesis using global_index_bounds(2)[OF v] gi n by simp
  qed
  have A: "ecl_grid_get_property iget g kw i j k =
              (case ecl_grid_get_global_index3 g i j k of
                 Inl e \<Rightarrow> Inl e
               | Inr global_index \<Rightarrow> iget kw global_index)"
    if sz: "ecl_kw_get_size kw = nx g * ny g * nz g"
  proof (cases "ecl_grid_get_global_index3 g i j k")
    case (Inl e)
    then show ?thesis using numeric sz
      by (simp add: ecl_grid_get_property_def ecl_kw_get_type_def Let_def)
  next
    case (Inr gi)
    then show ?thesis using numeric sz valid_nonneg[OF Inr]
      by (simp add: ecl_grid_get_property_def ecl_kw_get_type_def Let_def)
  qed
  have B: "ecl_grid_get_property iget g kw i j k =
              (case ecl_grid_get_active_index3 g i j k of
                 Inl e \<Rightarrow> Inl e
               | Inr act_index \<Rightarrow> if act_index \<ge> 0 then iget kw act_index else Inr (- 1))"
    if sz: "ecl_kw_get_size kw = total_active g"
  proof (cases "ecl_kw_get_size kw = nx g * ny g * nz g")
    case False
    then show ?thesis using numeric sz
      by (simp add: ecl_grid_get_property_def ecl_kw_get_type_def Let_def)
  next
    case True
    then have full: "active_rank ?cs ?n = int ?n" using sz dims(4) n by simp
    show ?thesis
    proof (cases "ecl_grid_get_global_index3 g i j k")
      case (Inl e)
      then show ?thesis unfolding A[OF True] by (simp add: ecl_grid_get_active_index3_def)
    next
      case (Inr gi)
      have g0: "0 \<le> gi" and g1: "gi < int ?n" using valid_nonneg[OF Inr] valid_lt[OF Inr] by simp_all
      then have h: "nat gi < ?n" by linarith
      have "imap ! nat gi = gi"
        using I3[rule_format, OF h] all_active_rank[OF full h] g0 by simp
      then have "ecl_grid_get_active_index3 g i j k = Inr gi"
        using Inr g0 g1 li
        by (simp add: ecl_grid_get_active_index3_def ecl_grid_get_active_index1_def dims(5) array_get_def)
      then show ?thesis unfolding A[OF True] using Inr g0 by simp
    qed
  qed
  have C: "ecl_grid_get_property iget g kw i j k = Inl Abort"
    if "ecl_kw_get_size kw \<noteq> nx g * ny g * nz g \<and> ecl_kw_get_size kw \<noteq> total_active g"
    using that by (simp add: ecl_grid_get_property_def Let_def)
  show ?thesis using A B C by blast
qed

lemma two_cell_grid_update:
  "ecl_grid_update_index (\<lambda>_. 0) (\<lambda>_. 0) two_cell_grid = Inr two_cell_grid_indexed"
  apply (simp add: ecl_grid_update_index_def ecl_grid_set_active_index_def
        ecl_grid_realloc_index_map_def loop_from.simps set_active_index_body_def
        realloc_index_map_body_def util_realloc_def array_get_def array_set_def
        ecl_grid_get_global_index_unchecked_def two_cell_grid_def two_cell_grid_indexed_def
        grid_of_cells_def ecl_grid_alloc_empty_def cube_cell_def Let_def)
  apply (simp add: numeral_2_eq_2)
  done

lemma two_cell_grid_dims_ok: "grid_dims_ok two_cell_grid"
  by (simp add: grid_dims_ok_def two_cell_grid_def grid_of_cells_def ecl_grid_alloc_empty_def)

theorem get_property_addressing_witness:
  "grid_dims_ok two_cell_grid \<and>
   ecl_grid_update_index (\<lambda>_. 0) (\<lambda>_. 0) two_cell_grid = Inr two_cell_grid_indexed \<and>
   ecl_grid_get_property ecl_kw_iget_as_double two_cell_grid_indexed (double_kw [10, 20]) 1 0 0 = Inr 20 \<and>
   ecl_grid_get_property ecl_kw_iget_as_double two_cell_grid_indexed (double_kw [30]) 1 0 0 = Inr 30 \<and>
   ecl_grid_get_property ecl_kw_iget_as_double two_cell_grid_indexed (double_kw [30]) 0 0 0 = Inr (- 1) \<and>
   ecl_grid_get_property ecl_kw_iget_as_double two_cell_grid_indexed (double_kw [1, 2, 3]) 1 0 0 = Inl Abort"
  using get_property_addressing [OF two_cell_grid_dims_ok two_cell_grid_update,
          of "double_kw [10, 20]" ecl_kw_iget_as_double 1 0 0]
    get_property_addressing [OF two_cell_grid_dims_ok two_cell_grid_update,
          of "double_kw [30]" ecl_kw_iget_as_double 1 0 0]
    get_property_addressing [OF two_cell_grid_dims_ok two_cell_grid_update,
          of "double_kw [30]" ecl_kw_iget_as_double 0 0 0]
    get_property_addressing [OF two_cell_grid_dims_ok two_cell_grid_update,
          of "double_kw [1, 2, 3]" ecl_kw_iget_as_double 1 0 0]
    two_cell_grid_dims_ok two_cell_grid_update
  by (simp add: double_kw_def ecl_kw_get_size_def ecl_kw_iget_as_double_def
        two_cell_grid_indexed_def grid_of_cells_def ecl_grid_alloc_empty_def
        ecl_grid_get_global_index3_def ecl_grid_ijk_valid_def
        ecl_grid_get_global_index_unchecked_def ecl_grid_get_active_index3_def
        ecl_grid_get_active_index1_def array_get_def)

subsection \<open>Registration of LGRs\<close>








subsection \<open>Installing an LGR in its host grid\<close>

text \<open>
  Claim C4 says that \<open>ecl_grid_install_lgr_EGRID\<close> sets the \<open>lgr\<close> reference of the host
  cell at the decremented index \<open>hostnum[c] - 1\<close>, the index it stores in \<open>host_cell\<close>.
  The source indexes the host cells with \<open>hostnum[c]\<close> itself.  With a host grid of two
  cells and the host-cell map \<open>[1]\<close>, the LGR cell gets \<open>host_cell = 0\<close>, but the
  reference to the LGR is set in host cell \<open>1\<close> and host cell \<open>0\<close> has none, where
  the sibling \<open>ecl_grid_install_lgr_GRID\<close> then sets it in host cell \<open>0\<close>; with the
  map \<open>[2]\<close>, which names the last host cell, the source reads past the cell array.
\<close>

theorem install_lgr_EGRID_host_cell_mismatch:
  "(\<exists>h'. ecl_grid_install_lgr_EGRID host_and_lgr 0 1 [1] = Inr h' \<and>
         host_cell (cells (h' ! 1) ! 0) = 0 \<and>
         lgr (cells (h' ! 0) ! 0) = None \<and>
         lgr (cells (h' ! 0) ! 1) = Some 1 \<and>
         (\<exists>h''. ecl_grid_install_lgr_GRID h' 0 1 = Inr h'' \<and>
                lgr (cells (h'' ! 0) ! 0) = Some 1)) \<and>
   ecl_grid_install_lgr_EGRID host_and_lgr 0 1 [2] = Inl Fault"
  by (simp add: ecl_grid_install_lgr_EGRID_def install_lgr_EGRID_body_def
        ecl_grid_install_lgr_GRID_def install_lgr_GRID_body_def loop_from.simps
        heap_get_def array_get_def host_and_lgr_def grid_of_cells_def ecl_grid_alloc_empty_def
        ecl_cell_install_lgr_def hash_insert_ref_def cube_cell_def Let_def)

subsection \<open>Point locate with a hint\<close>

lemma point_set_sel:
  "px (point_set a b c) = a" "py (point_set a b c) = b" "pz (point_set a b c) = c"
  by (simp_all add: point_set_def)

lemma point_in_cube:
  "ecl_cell_contains_point tetrahedron_volume tetrahedron_contains (cube_cell 1 1 1 True)
     (point_set (9 / 8) (13 / 8) (11 / 8)) = Inr True"
proof -
  have v: "ecl_cell_get_volume tetrahedron_volume (cube_cell 1 1 1 True) > 0"
    by (rule cube_volume_pos)
  have t: "tetrahedron_contains (ecl_cell_init_tetrahedron (cube_cell 1 1 1 True) 0 0)
             (point_set (9 / 8) (13 / 8) (11 / 8))"
    by (simp add: tetrahedron_contains_def ecl_cell_init_tetrahedron_def
          tetrahedron_permutations_def tetrahedron_set_shared_def corner_def cube_cell_def
          edge_det_def point_set_def Let_def)
  have l: "contains_loop tetrahedron_contains (cube_cell 1 1 1 True)
             (point_set (9 / 8) (13 / 8) (11 / 8)) 0 = Inr True"
    using t by (subst contains_loop.simps) simp
  have b: "tainted_geometry (cube_cell 1 1 1 True) = False"
    "ecl_cell_min_z (cube_cell 1 1 1 True) = 1" "ecl_cell_max_z (cube_cell 1 1 1 True) = 2"
    "ecl_cell_min_x (cube_cell 1 1 1 True) = 1" "ecl_cell_max_x (cube_cell 1 1 1 True) = 2"
    "ecl_cell_min_y (cube_cell 1 1 1 True) = 1" "ecl_cell_max_y (cube_cell 1 1 1 True) = 2"
    by (simp_all add: ecl_cell_min_z_def ecl_cell_max_z_def ecl_cell_min_x_def ecl_cell_max_x_def
          ecl_cell_min_y_def ecl_cell_max_y_def min4_def max4_def min8_def max8_def min2_def
          max2_def corner_def cube_cell_def point_set_def)
  show ?thesis
    using v by (simp add: ecl_cell_contains_point_def b l point_set_sel)
qed

lemma point_not_in_far_cube:
  assumes "2 \<le> x0"
  shows "ecl_cell_contains_point tv tc (cube_cell x0 1 1 True)
           (point_set (9 / 8) (13 / 8) (11 / 8)) = Inr False"
proof -
  have "ecl_cell_min_x (cube_cell x0 1 1 True) = x0"
    by (simp add: ecl_cell_min_x_def min8_def min4_def min2_def corner_def cube_cell_def point_set_def)
  moreover have "tainted_geometry (cube_cell x0 1 1 True) = False"
    "ecl_cell_min_z (cube_cell x0 1 1 True) = 1" "ecl_cell_max_z (cube_cell x0 1 1 True) = 2"
    by (simp_all add: ecl_cell_min_z_def ecl_cell_max_z_def min4_def max4_def min2_def
          max2_def corner_def cube_cell_def point_set_def)
  ultimately show ?thesis
    using assms by (simp add: ecl_cell_contains_point_def point_set_sel)
qed

lemmas five_cell_tests =
  point_in_cube point_not_in_far_cube[of 10] point_not_in_far_cube[of 20] point_not_in_far_cube[of 30]

lemma five_cell_fields:
  "nx five_cell_grid = 5" "ny five_cell_grid = 1" "nz five_cell_grid = 1"
  "size_grid five_cell_grid = 5"
  "cells five_cell_grid = [cube_cell 1 1 1 True, cube_cell 10 1 1 True, cube_cell 20 1 1 True,
        cube_cell 1 1 1 True, cube_cell 30 1 1 True]"
  by (simp_all add: five_cell_grid_def grid_of_cells_def ecl_grid_alloc_empty_def)

text \<open>
  Claim C5 says that the point locate scans the 3x3x3 neighbourhood of the hint before the
  5x5x5 neighbourhood.  The source passes \<open>i + 1\<close> as the upper bound of a box that does
  not include its upper bound, so the first box holds the cells at \<open>i - 1\<close> and \<open>i\<close>
  only.  In a row of five cells where the cells \<open>0\<close> and \<open>3\<close> both contain the point
  and the hint is \<open>2\<close>, cell \<open>3\<close> is a neighbour of the hint, yet the source returns
  \<open>0\<close>, found in the second box; the search as specified returns \<open>3\<close>.
\<close>

theorem locate_misses_upper_neighbour:
  "ecl_grid_cell_contains_xyz1 tetrahedron_volume tetrahedron_contains five_cell_grid 3
     (9 / 8) (13 / 8) (11 / 8) = Inr True \<and>
   (\<exists>g'. ecl_grid_get_global_index_from_xyz tetrahedron_volume tetrahedron_contains five_cell_grid
           (9 / 8) (13 / 8) (11 / 8) 2 = Inr (0, g')) \<and>
   locate_as_specified tetrahedron_volume tetrahedron_contains five_cell_grid
     (9 / 8) (13 / 8) (11 / 8) 2 = Inr 3"
proof (intro conjI)
  show "ecl_grid_cell_contains_xyz1 tetrahedron_volume tetrahedron_contains five_cell_grid 3
     (9 / 8) (13 / 8) (11 / 8) = Inr True"
    by (simp add: ecl_grid_cell_contains_xyz1_def five_cell_fields array_get_def five_cell_tests)
  show "\<exists>g'. ecl_grid_get_global_index_from_xyz tetrahedron_volume tetrahedron_contains five_cell_grid
           (9 / 8) (13 / 8) (11 / 8) 2 = Inr (0, g')"
    by (simp add: ecl_grid_get_global_index_from_xyz_def ecl_grid_clear_visited_def
          ecl_grid_box_contains_xyz_def box_loop_k.simps box_loop_j.simps box_loop_i.simps
          ecl_grid_get_ijk1_def c_div_def signed_divide_int_def
          ecl_grid_get_global_index3_def ecl_grid_ijk_valid_def
          ecl_grid_get_global_index_unchecked_def util_int_max_def util_int_min_def
          five_cell_fields array_get_def five_cell_tests Let_def eval_nat_numeral)
  show "locate_as_specified tetrahedron_volume tetrahedron_contains five_cell_grid
     (9 / 8) (13 / 8) (11 / 8) 2 = Inr 3"
    by (simp add: locate_as_specified_def ecl_grid_clear_visited_def
          ecl_grid_box_contains_xyz_def box_loop_k.simps box_loop_j.simps box_loop_i.simps
          ecl_grid_get_ijk1_def c_div_def signed_divide_int_def
          ecl_grid_get_global_index3_def ecl_grid_ijk_valid_def
          ecl_grid_get_global_index_unchecked_def util_int_max_def util_int_min_def
          five_cell_fields array_get_def five_cell_tests Let_def eval_nat_numeral)
qed

end
